theory Spec2Isabelle
  imports Complex_Main
begin

section \<open>The firm's discrete-choice problem: FirmDiscrete.ipynb\<close>

text \<open>
  The notebook \<^verbatim>\<open>src/DynamicProgramming/FirmDiscrete.ipynb\<close> is a script: it builds a
  capital grid, the per-period flows, and runs value-function iteration (VFI). Each block of
  the script is a function here, reading the script's variables from a record and returning
  the variables the block binds. float64 values are real numbers (no rounding, no overflow);
  where the script's floating-point arithmetic leaves the real numbers (the logarithm of a
  non-positive number, a division by a zero float) the outcome of the block is traced by
  hand and written as a branch. Sizes and counters are natural numbers, stored array
  indices are integers. Python exceptions are values of \<open>error\<close>.

  Two parts of the script are given a second time, closer to float64, for the properties
  that exact arithmetic cannot decide: the grid construction with every operation rounded
  to the nearest double (\<open>build_grid_float\<close>), and the pass of the loop on values that
  include the infinities and NaN (\<open>f_pass\<close>).
\<close>

datatype error = ZeroDivisionError | ValueError | OverflowError | IndexError | NameError

type_synonym mat = "real list list"

type_synonym tensor = "real list list list"

subsection \<open>Array operations (numpy, cell 5, the slice assignments of cell 7)\<close>

text \<open>\<open>np.dot(A, B)\<close> for two-dimensional arrays; \<open>ncols\<close> is the second dimension of B.\<close>

definition np_dot :: "mat \<Rightarrow> mat \<Rightarrow> nat \<Rightarrow> mat" where
  "np_dot A B ncols =
     map (\<lambda>row. map (\<lambda>j. sum_list (map2 (*) row (map (\<lambda>b. b ! j) B))) [0..<ncols]) A"

text \<open>
  \<open>.max()\<close> over a non-empty sequence. numpy raises ValueError on an empty one; every
  caller below tests for that before it calls \<open>amax\<close>.
\<close>

definition amax :: "real list \<Rightarrow> real" where
  "amax xs = fold max (tl xs) (hd xs)"

text \<open>\<open>np.argmax\<close>: the index of the first occurrence of the maximum.\<close>

fun argmax_scan :: "real \<Rightarrow> nat \<Rightarrow> nat \<Rightarrow> real list \<Rightarrow> nat" where
  "argmax_scan best k i [] = k"
| "argmax_scan best k i (x # xs) =
     (if best < x then argmax_scan x i (Suc i) xs else argmax_scan best k (Suc i) xs)"

definition argmax :: "real list \<Rightarrow> nat" where
  "argmax xs = argmax_scan (hd xs) 0 1 (tl xs)"

text \<open>
  \<open>np.max(a, axis)\<close>: the second positional argument of \<open>np.max\<close> is the axis of the
  reduction, not a second operand. On a scalar (a 0-d array) numpy accepts the axes 0 and
  -1 and returns the scalar itself. The script's only call passes the axis 0; the
  AxisError of any other axis is not modelled.
\<close>

definition np_max :: "int \<Rightarrow> int \<Rightarrow> int" where
  "np_max a axis = a"

text \<open>
  \<^verbatim>\<open>
  def create_Vmat(EV, e, betafirm, Pi, sizez, sizek, Vmat):
      for i in range(sizez):  # loop over z
          for j in range(sizek):  # loop over k
              for m in range(sizek):  # loop over k'
                  Vmat[i, j, m] = e[i, j, m] + betafirm * EV[i, m]
      return Vmat
  \<close>
  The loops assign every entry of \<open>Vmat\<close>, a buffer of shape (sizez, sizek, sizek), so the
  returned array does not depend on the buffer's old contents; \<open>Pi\<close> is not read.
\<close>

definition create_Vmat ::
  "mat \<Rightarrow> tensor \<Rightarrow> real \<Rightarrow> mat \<Rightarrow> nat \<Rightarrow> nat \<Rightarrow> tensor \<Rightarrow> tensor" where
  "create_Vmat EV e betafirm Pi sizez sizek Vmat =
     map (\<lambda>i. map (\<lambda>j. map (\<lambda>m. e ! i ! j ! m + betafirm * EV ! i ! m)
       [0..<sizek]) [0..<sizek]) [0..<sizez]"

text \<open>
  \<^verbatim>\<open>
  EV_i[:, dens:] = EV[:, :sizek - dens]
  EV_i[:, :dens] = np.tile(np.reshape(EV[:, 0], (sizez, 1)), (1, dens))
  \<close>
  With no capital column \<open>EV[:, 0]\<close> raises IndexError. With \<open>dens > sizek > 0\<close> the
  second assignment at the latest stops with ValueError: the tiled block has \<open>dens\<close>
  columns and the target slice only \<open>sizek\<close>. Otherwise both slice assignments have
  matching shapes and are written out row by row.
\<close>

definition assign_EV_i ::
  "nat \<Rightarrow> nat \<Rightarrow> 'a list list \<Rightarrow> 'a list list \<Rightarrow> error + 'a list list" where
  "assign_EV_i dens sizek EV EV_i =
     (if sizek = 0 then Inl IndexError
      else if sizek < dens then Inl ValueError
      else
        (let B1 = map2 (\<lambda>old ev. take dens old @ take (sizek - dens) ev) EV_i EV;
             B2 = map2 (\<lambda>row ev. replicate dens (ev ! 0) @ drop dens row) B1 EV
         in Inr B2))"

subsection \<open>float64 values with infinities and NaN\<close>

text \<open>
  The arrays of the VFI cell hold float64 values, and the script never tests them with
  \<open>np.isfinite\<close> or \<open>np.isnan\<close>. To follow a non-finite flow through the loop, the
  operations of one pass are given a second time, on float64 values that include the two
  infinities and NaN. A finite result is the exact one, as above: rounding, and the overflow
  of a finite sum or product to an infinity, are not modelled. On the other values the
  operations follow IEEE 754, as numpy and the compiled \<open>create_Vmat\<close> do: NaN is
  absorbing, \<open>inf - inf\<close> and \<open>0 * inf\<close> are NaN, and every comparison with NaN is
  false.
\<close>

datatype f64 = Fin real | PInf | NInf | NaN

type_synonym fmat = "f64 list list"

type_synonym ftensor = "f64 list list list"

fun f_add :: "f64 \<Rightarrow> f64 \<Rightarrow> f64" where
  "f_add NaN y = NaN"
| "f_add x NaN = NaN"
| "f_add PInf NInf = NaN"
| "f_add NInf PInf = NaN"
| "f_add PInf y = PInf"
| "f_add x PInf = PInf"
| "f_add NInf y = NInf"
| "f_add x NInf = NInf"
| "f_add (Fin x) (Fin y) = Fin (x + y)"

fun f_neg :: "f64 \<Rightarrow> f64" where
  "f_neg (Fin x) = Fin (- x)"
| "f_neg PInf = NInf"
| "f_neg NInf = PInf"
| "f_neg NaN = NaN"

definition f_sub :: "f64 \<Rightarrow> f64 \<Rightarrow> f64" where
  "f_sub x y = f_add x (f_neg y)"

fun f_sgn :: "f64 \<Rightarrow> int" where
  "f_sgn (Fin x) = (if x < 0 then - 1 else if x = 0 then 0 else 1)"
| "f_sgn PInf = 1"
| "f_sgn NInf = - 1"
| "f_sgn NaN = 0"

text \<open>The last equation is the product with an infinite factor: NaN when the other is 0.\<close>

fun f_mul :: "f64 \<Rightarrow> f64 \<Rightarrow> f64" where
  "f_mul NaN y = NaN"
| "f_mul x NaN = NaN"
| "f_mul (Fin x) (Fin y) = Fin (x * y)"
| "f_mul x y =
     (if f_sgn x * f_sgn y = 0 then NaN else if f_sgn x * f_sgn y = 1 then PInf else NInf)"

fun f_abs :: "f64 \<Rightarrow> f64" where
  "f_abs (Fin x) = Fin \<bar>x\<bar>"
| "f_abs PInf = PInf"
| "f_abs NInf = PInf"
| "f_abs NaN = NaN"

text \<open>\<open>x < y\<close> and \<open>x <= y\<close> on floats.\<close>

fun f_less :: "f64 \<Rightarrow> f64 \<Rightarrow> bool" where
  "f_less NaN y = False"
| "f_less x NaN = False"
| "f_less (Fin x) (Fin y) = (x < y)"
| "f_less x PInf = (x \<noteq> PInf)"
| "f_less NInf y = (y \<noteq> NInf)"
| "f_less x y = False"

definition f_le :: "f64 \<Rightarrow> f64 \<Rightarrow> bool" where
  "f_le x y \<longleftrightarrow> f_less x y \<or> (x = y \<and> x \<noteq> NaN)"

text \<open>
  \<open>np.maximum\<close> and \<open>.max()\<close> return NaN as soon as one operand is NaN. \<open>np.argmax\<close>
  returns the index of the first NaN when there is one, and of the first maximum otherwise.
\<close>

definition np_maximum :: "f64 \<Rightarrow> f64 \<Rightarrow> f64" where
  "np_maximum x y = (if x = NaN \<or> y = NaN then NaN else if f_less x y then y else x)"

definition f_amax :: "f64 list \<Rightarrow> f64" where
  "f_amax xs = fold np_maximum (tl xs) (hd xs)"

fun f_argmax_scan :: "f64 \<Rightarrow> nat \<Rightarrow> nat \<Rightarrow> f64 list \<Rightarrow> nat" where
  "f_argmax_scan best k i [] = k"
| "f_argmax_scan best k i (x # xs) =
     (if best = NaN then k
      else if \<not> f_le x best then f_argmax_scan x i (Suc i) xs
      else f_argmax_scan best k (Suc i) xs)"

definition f_argmax :: "f64 list \<Rightarrow> nat" where
  "f_argmax xs = f_argmax_scan (hd xs) 0 1 (tl xs)"

text \<open>
  \<open>np.dot\<close>: each entry is a sum of products. With exact finite parts the order of the
  summation does not change the result: NaN if a product is NaN or if both infinities occur,
  otherwise the infinity that occurs, otherwise the finite sum.
\<close>

definition f_sum :: "f64 list \<Rightarrow> f64" where
  "f_sum xs = foldr f_add xs (Fin 0)"

definition f_dot :: "fmat \<Rightarrow> fmat \<Rightarrow> nat \<Rightarrow> fmat" where
  "f_dot A B ncols =
     map (\<lambda>row. map (\<lambda>j. f_sum (map2 f_mul row (map (\<lambda>b. b ! j) B))) [0..<ncols]) A"

text \<open>\<open>create_Vmat\<close> on these values.\<close>

definition f_create_Vmat ::
  "fmat \<Rightarrow> ftensor \<Rightarrow> f64 \<Rightarrow> fmat \<Rightarrow> nat \<Rightarrow> nat \<Rightarrow> ftensor \<Rightarrow> ftensor" where
  "f_create_Vmat EV e betafirm Pi sizez sizek Vmat =
     map (\<lambda>i. map (\<lambda>j. map (\<lambda>m. f_add (e ! i ! j ! m) (f_mul betafirm (EV ! i ! m)))
       [0..<sizek]) [0..<sizek]) [0..<sizez]"

subsection \<open>The script's variables\<close>

text \<open>The scalars the script sets at its top level and in the VFI cell.\<close>

record params =
  delta :: real
  kbar :: real
  lb_k :: real
  dens :: nat
  betafirm :: real
  VFtol :: real
  VFmaxiter :: nat

text \<open>
  The arrays the VFI cell reads, with their sizes, and the contents of the two buffers that
  \<open>np.empty\<close> hands out (arbitrary values).
\<close>

record arrays =
  Pi :: mat
  e_a :: tensor
  e_i :: mat
  sizez :: nat
  sizek :: nat
  EV_i_empty :: mat
  Vmat_empty :: tensor

text \<open>The variables that only the loop body binds; before the first pass they do not exist.\<close>

record loop_vars =
  EV :: mat
  Vmat :: tensor
  V_i :: mat
  V_a :: mat
  PF_continuous :: "int list list"

record vfi_state =
  V :: mat
  EV_i :: mat
  VFdist :: real
  VFiter :: nat
  bound :: "loop_vars option"

text \<open>The same variables when the arrays hold float64 values with infinities and NaN.\<close>

record farrays =
  Pi_f :: fmat
  e_a_f :: ftensor
  e_i_f :: fmat
  sizez_f :: nat
  sizek_f :: nat
  EV_i_empty_f :: fmat
  Vmat_empty_f :: ftensor

record floop_vars =
  EV_f :: fmat
  Vmat_f :: ftensor
  V_i_f :: fmat
  V_a_f :: fmat
  PF_continuous_f :: "int list list"

record fstate =
  V_f :: fmat
  EV_i_f :: fmat
  VFdist_f :: f64
  VFiter_f :: nat
  bound_f :: "floop_vars option"

subsection \<open>The capital grid (cell 1)\<close>

text \<open>
  \<^verbatim>\<open>
  ub_k = kbar
  krat = np.log(lb_k / ub_k)
  numb = np.ceil(krat / np.log(1 - delta))
  K = np.empty(int(numb * dens))
  for j in range(int(numb * dens)):
      K[j] = ub_k * (1 - delta) ** (j / dens)
  kvec = K[::-1]
  sizek = kvec.shape[0]
  \<close>
  \<open>lb_k / ub_k\<close> divides Python numbers and raises on a zero divisor. \<open>np.log\<close> returns
  \<open>-inf\<close> at 0 and \<open>nan\<close> below 0, and the division of the two numpy floats follows
  IEEE 754 (a warning, no exception); \<open>int\<close> raises ValueError on \<open>nan\<close> and
  OverflowError on an infinity, and \<open>np.empty\<close> raises ValueError on a negative length.
  The loop body runs only in the last branch, where \<open>1 - delta\<close> is positive, so that
  \<open>powr\<close> is Python's power there.
\<close>





text \<open>The configurations the specification calls valid for the grid.\<close>

definition valid_grid_config :: "params \<Rightarrow> bool" where
  "valid_grid_config p \<longleftrightarrow>
     0 < delta p \<and> delta p < 1 \<and> 0 < lb_k p \<and> lb_k p < kbar p \<and> 1 \<le> dens p"

subsection \<open>The capital grid in float64 arithmetic\<close>

text \<open>
  A double is a number \<open>m * 2^e\<close> with an integer \<open>m\<close> of at most 53 bits. \<open>fl x\<close> is the
  double nearest to \<open>x\<close>, and the one with the even \<open>m\<close> when two doubles are equally near:
  the result that IEEE 754 prescribes for \<open>+\<close>, \<open>-\<close>, \<open>*\<close> and \<open>/\<close> on doubles. The
  exponent \<open>e\<close> is not bounded here, so the overflow to an infinity and the subnormal
  numbers are left out. \<open>x\<close> is scaled to \<open>2^52 \<le> |x / 2^e| < 2^53\<close> and rounded to an
  integer there.
\<close>

definition round_even :: "real \<Rightarrow> int" where
  "round_even r =
     (let f = \<lfloor>r\<rfloor> in
      if r - of_int f < 1 / 2 then f
      else if 1 / 2 < r - of_int f then f + 1
      else if even f then f else f + 1)"

definition pow2 :: "int \<Rightarrow> real" where
  "pow2 e = (if 0 \<le> e then 2 ^ nat e else 1 / 2 ^ nat (- e))"

definition fl :: "real \<Rightarrow> real" where
  "fl x =
     (if x = 0 then 0
      else (let e = \<lfloor>log 2 \<bar>x\<bar>\<rfloor> - 52
            in of_int (round_even (x / pow2 e)) * pow2 e))"

text \<open>
  Python's \<open>**\<close> on two floats is the C library's \<open>pow\<close>, and \<open>np.log\<close> is numpy's
  logarithm. Both are taken to return the double nearest to the exact value. No standard
  promises that of them. The assumption matters only where the exact value is not a double:
  a library that is off by less than one unit in the last place returns an exact result
  as it is (\<open>x ** 0.0\<close> is 1, \<open>x ** 1.0\<close> is \<open>x\<close>, \<open>0.75 ** 2.0\<close> is 0.5625).
\<close>

definition f_pow :: "real \<Rightarrow> real \<Rightarrow> real" where
  "f_pow x y = fl (x powr y)"

definition f_log :: "real \<Rightarrow> real" where
  "f_log x = fl (ln x)"

text \<open>
  Cell 1 with these operations. \<open>delta\<close>, \<open>kbar\<close> and \<open>lb_k\<close> are float literals, that is
  doubles; \<open>j\<close> and \<open>dens\<close> are ints, and \<open>j / dens\<close> is their rounded quotient.
  \<open>np.ceil\<close>, the product with \<open>dens\<close> and \<open>int\<close> are exact on the counts that occur.
  The branches are those of \<open>build_grid\<close>, on the rounded values of \<open>lb_k / ub_k\<close> and of
  \<open>1 - delta\<close>.
\<close>

definition numb_float :: "params \<Rightarrow> int" where
  "numb_float p = \<lceil>fl (f_log (fl (lb_k p / kbar p)) / f_log (fl (1 - delta p)))\<rceil>"

definition K_float :: "params \<Rightarrow> nat \<Rightarrow> real list" where
  "K_float p n =
     map (\<lambda>j. fl (kbar p * f_pow (fl (1 - delta p)) (fl (real j / real (dens p))))) [0..<n]"

definition build_grid_float :: "params \<Rightarrow> error + real list" where
  "build_grid_float p =
     (let ub_k = kbar p in
      if ub_k = 0 then Inl ZeroDivisionError
      else
        (let r = fl (lb_k p / ub_k); x = fl (1 - delta p) in
         if r < 0 \<or> x < 0 then Inl ValueError
         else if r = 0 then
           (if x = 0 \<or> dens p = 0 then Inl ValueError else Inl OverflowError)
         else if x = 0 then Inr []
         else if x = 1 then
           (if r = 1 \<or> dens p = 0 then Inl ValueError else Inl OverflowError)
         else
           (let n = numb_float p * int (dens p) in
            if n < 0 then Inl ValueError
            else Inr (rev (K_float p (nat n))))))"

subsection \<open>Value-function iteration (cell 7)\<close>

text \<open>
  One pass of the loop body. \<open>TV = V\<close> keeps the old array, since \<open>V\<close> is rebound to a
  fresh array by \<open>np.maximum\<close>. \<open>Vstore[:, :, VFiter] = V\<close> writes a log that nothing
  reads and is in range because \<open>VFiter < VFmaxiter\<close>; it is left out. The last reduction
  is over all entries and raises ValueError when there is no productivity row.
\<close>

definition vfi_pass :: "params \<Rightarrow> arrays \<Rightarrow> vfi_state \<Rightarrow> error + vfi_state" where
  "vfi_pass p a s =
     (let TV = V s;
          EV' = np_dot (Pi a) (V s) (sizek a)
      in case assign_EV_i (dens p) (sizek a) EV' (EV_i s) of
           Inl e \<Rightarrow> Inl e
         | Inr EV_i' \<Rightarrow>
            (let Vmat' = create_Vmat EV' (e_a a) (betafirm p) (Pi a) (sizez a) (sizek a)
                           (case bound s of None \<Rightarrow> Vmat_empty a | Some l \<Rightarrow> Vmat l);
                 V_i' = map2 (map2 (\<lambda>e ev. e + betafirm p * ev)) (e_i a) EV_i';
                 V_a' = map (map amax) Vmat';
                 PF_continuous' = map (map (\<lambda>row. int (argmax row))) Vmat';
                 V' = map2 (map2 max) V_a' V_i'
             in if sizez a = 0 then Inl ValueError
                else Inr \<lparr>V = V', EV_i = EV_i',
                          VFdist = amax (concat (map2 (map2 (\<lambda>x y. \<bar>x - y\<bar>)) V' TV)),
                          VFiter = VFiter s + 1,
                          bound = Some \<lparr>EV = EV', Vmat = Vmat', V_i = V_i', V_a = V_a',
                                         PF_continuous = PF_continuous'\<rparr>\<rparr>))"

text \<open>
  \<^verbatim>\<open>
  VFdist = 7.0
  V = np.zeros((sizez, sizek))
  EV_i = np.empty((sizez, sizek))
  VFiter = 1
  while VFdist > VFtol and VFiter < VFmaxiter:
      ...
  \<close>
\<close>

definition vfi_init :: "arrays \<Rightarrow> vfi_state" where
  "vfi_init a = \<lparr>V = replicate (sizez a) (replicate (sizek a) 0), EV_i = EV_i_empty a,
                 VFdist = 7, VFiter = 1, bound = None\<rparr>"

definition vfi_cond :: "params \<Rightarrow> vfi_state \<Rightarrow> bool" where
  "vfi_cond p s \<longleftrightarrow> VFdist s > VFtol p \<and> VFiter s < VFmaxiter p"

function vfi_while :: "params \<Rightarrow> arrays \<Rightarrow> vfi_state \<Rightarrow> error + vfi_state" where
  "vfi_while p a s =
     (if vfi_cond p s
      then (case vfi_pass p a s of Inl e \<Rightarrow> Inl e | Inr s' \<Rightarrow> vfi_while p a s')
      else Inr s)"
  by pat_completeness auto
termination
  by (relation "measure (\<lambda>(p, a, s). VFmaxiter p - VFiter s)")
     (auto simp: vfi_cond_def vfi_pass_def Let_def split: sum.splits if_splits)

declare vfi_while.simps [simp del]

text \<open>The states in which the loop condition is tested.\<close>

inductive reached :: "params \<Rightarrow> arrays \<Rightarrow> vfi_state \<Rightarrow> bool" for p a where
  start: "reached p a (vfi_init a)"
| pass: "reached p a s \<Longrightarrow> vfi_cond p s \<Longrightarrow> vfi_pass p a s = Inr s' \<Longrightarrow> reached p a s'"

text \<open>
  The same loop with a budget of passes: \<open>None\<close> when the budget is used up while the loop
  condition still holds. It measures how many passes the loop makes.
\<close>

fun vfi_fuel :: "nat \<Rightarrow> params \<Rightarrow> arrays \<Rightarrow> vfi_state \<Rightarrow> (error + vfi_state) option" where
  "vfi_fuel 0 p a s = (if vfi_cond p s then None else Some (Inr s))"
| "vfi_fuel (Suc n) p a s =
     (if vfi_cond p s
      then (case vfi_pass p a s of Inl e \<Rightarrow> Some (Inl e) | Inr s' \<Rightarrow> vfi_fuel n p a s')
      else Some (Inr s))"

text \<open>
  \<^verbatim>\<open>
  if VFiter < VFmaxiter:
      print('Value function converged after this many iterations:', VFiter)
  else:
      print('Value function did not converge')
  \<close>
\<close>

datatype report = Converged nat | Did_not_converge

definition vfi_report :: "params \<Rightarrow> vfi_state \<Rightarrow> report" where
  "vfi_report p s = (if VFiter s < VFmaxiter p then Converged (VFiter s) else Did_not_converge)"

text \<open>
  \<^verbatim>\<open>
  PF_discrete = np.empty((sizez, sizek))
  for i in range(sizez):
      for j in range(sizek):
          if V_i[i, j] >= V_a[i, j]:
              PF_discrete[i, j] = 0  # policy function = 0 if no change
              PF_continuous[i, j] = np.max(j-dens, 0)
          elif V_a[i, j] > V_i[i, j]:
              PF_discrete[i, j] = 1  # policy function = 1 if change
              PF_continuous[i, j] = PF_continuous[i, j]
  \<close>
  When the loop above made no pass, \<open>V_i\<close> is not bound and the first test raises
  NameError (unless there is no state at all). Over the reals one of the two tests holds,
  so every entry of \<open>PF_discrete\<close> is assigned.
\<close>

definition policy_loop ::
  "params \<Rightarrow> arrays \<Rightarrow> vfi_state \<Rightarrow> error + int list list \<times> loop_vars option" where
  "policy_loop p a s =
     (case bound s of
        None \<Rightarrow>
          if sizez a = 0 \<or> sizek a = 0 then Inr (replicate (sizez a) [], None)
          else Inl NameError
      | Some l \<Rightarrow>
          Inr (map (\<lambda>i. map (\<lambda>j. if V_i l ! i ! j \<ge> V_a l ! i ! j then 0 else 1)
                 [0..<sizek a]) [0..<sizez a],
               Some (l\<lparr>PF_continuous :=
                 map (\<lambda>i. map (\<lambda>j. if V_i l ! i ! j \<ge> V_a l ! i ! j
                                     then np_max (int j - int (dens p)) 0
                                     else PF_continuous l ! i ! j)
                   [0..<sizek a]) [0..<sizez a]\<rparr>)))"

text \<open>
  The whole VFI cell: the loop, the report, the policy loop. The report is printed before
  the policy loop runs, so an exception of the policy loop comes after it.
\<close>

definition vfi_cell ::
  "params \<Rightarrow> arrays \<Rightarrow>
     error + vfi_state \<times> report \<times> (error + int list list \<times> loop_vars option)" where
  "vfi_cell p a =
     (case vfi_while p a (vfi_init a) of
        Inl e \<Rightarrow> Inl e
      | Inr s \<Rightarrow> Inr (s, vfi_report p s, policy_loop p a s))"

text \<open>The shapes the script gives its arrays.\<close>

definition shaped :: "nat \<Rightarrow> nat \<Rightarrow> 'a list list \<Rightarrow> bool" where
  "shaped m n A \<longleftrightarrow> length A = m \<and> list_all (\<lambda>row. length row = n) A"

definition wf_arrays :: "arrays \<Rightarrow> bool" where
  "wf_arrays a \<longleftrightarrow>
     shaped (sizez a) (sizez a) (Pi a) \<and> shaped (sizez a) (sizek a) (e_i a) \<and>
     shaped (sizez a) (sizek a) (EV_i_empty a) \<and>
     length (e_a a) = sizez a \<and> list_all (shaped (sizek a) (sizek a)) (e_a a)"

subsection \<open>Value-function iteration on values with infinities and NaN\<close>

text \<open>
  The pass, the loop and the report of cell 7 once more, on the operations for float64 values
  with infinities and NaN. The slice assignments move values and are the same function. The
  scalars \<open>betafirm\<close> and \<open>VFtol\<close> are finite. The loop condition \<open>VFdist > VFtol\<close> is
  false when \<open>VFdist\<close> is NaN.
\<close>

definition f_pass :: "params \<Rightarrow> farrays \<Rightarrow> fstate \<Rightarrow> error + fstate" where
  "f_pass p a s =
     (let TV = V_f s;
          EV' = f_dot (Pi_f a) (V_f s) (sizek_f a)
      in case assign_EV_i (dens p) (sizek_f a) EV' (EV_i_f s) of
           Inl e \<Rightarrow> Inl e
         | Inr EV_i' \<Rightarrow>
            (let Vmat' = f_create_Vmat EV' (e_a_f a) (Fin (betafirm p)) (Pi_f a) (sizez_f a)
                           (sizek_f a)
                           (case bound_f s of None \<Rightarrow> Vmat_empty_f a | Some l \<Rightarrow> Vmat_f l);
                 V_i' = map2 (map2 (\<lambda>e ev. f_add e (f_mul (Fin (betafirm p)) ev)))
                          (e_i_f a) EV_i';
                 V_a' = map (map f_amax) Vmat';
                 PF_continuous' = map (map (\<lambda>row. int (f_argmax row))) Vmat';
                 V' = map2 (map2 np_maximum) V_a' V_i'
             in if sizez_f a = 0 then Inl ValueError
                else Inr \<lparr>V_f = V', EV_i_f = EV_i',
                          VFdist_f =
                            f_amax (concat (map2 (map2 (\<lambda>x y. f_abs (f_sub x y))) V' TV)),
                          VFiter_f = VFiter_f s + 1,
                          bound_f = Some \<lparr>EV_f = EV', Vmat_f = Vmat', V_i_f = V_i',
                                           V_a_f = V_a',
                                           PF_continuous_f = PF_continuous'\<rparr>\<rparr>))"

definition f_init :: "farrays \<Rightarrow> fstate" where
  "f_init a = \<lparr>V_f = replicate (sizez_f a) (replicate (sizek_f a) (Fin 0)),
               EV_i_f = EV_i_empty_f a, VFdist_f = Fin 7, VFiter_f = 1, bound_f = None\<rparr>"

definition f_cond :: "params \<Rightarrow> fstate \<Rightarrow> bool" where
  "f_cond p s \<longleftrightarrow> f_less (Fin (VFtol p)) (VFdist_f s) \<and> VFiter_f s < VFmaxiter p"

function f_while :: "params \<Rightarrow> farrays \<Rightarrow> fstate \<Rightarrow> error + fstate" where
  "f_while p a s =
     (if f_cond p s
      then (case f_pass p a s of Inl e \<Rightarrow> Inl e | Inr s' \<Rightarrow> f_while p a s')
      else Inr s)"
  by pat_completeness auto
termination
  by (relation "measure (\<lambda>(p, a, s). VFmaxiter p - VFiter_f s)")
     (auto simp: f_cond_def f_pass_def Let_def split: sum.splits if_splits)

declare f_while.simps [simp del]

definition f_report :: "params \<Rightarrow> fstate \<Rightarrow> report" where
  "f_report p s = (if VFiter_f s < VFmaxiter p then Converged (VFiter_f s) else Did_not_converge)"

definition wf_farrays :: "farrays \<Rightarrow> bool" where
  "wf_farrays a \<longleftrightarrow>
     shaped (sizez_f a) (sizez_f a) (Pi_f a) \<and> shaped (sizez_f a) (sizek_f a) (e_i_f a) \<and>
     shaped (sizez_f a) (sizek_f a) (EV_i_empty_f a) \<and>
     length (e_a_f a) = sizez_f a \<and> list_all (shaped (sizek_f a) (sizek_f a)) (e_a_f a)"

text \<open>Finite arrays and states, as values of this second form.\<close>

definition lift_mat :: "mat \<Rightarrow> fmat" where
  "lift_mat A = map (map Fin) A"

definition lift_tensor :: "tensor \<Rightarrow> ftensor" where
  "lift_tensor T = map (map (map Fin)) T"

definition lift_arrays :: "arrays \<Rightarrow> farrays" where
  "lift_arrays a = \<lparr>Pi_f = lift_mat (Pi a), e_a_f = lift_tensor (e_a a), e_i_f = lift_mat (e_i a),
                    sizez_f = sizez a, sizek_f = sizek a, EV_i_empty_f = lift_mat (EV_i_empty a),
                    Vmat_empty_f = lift_tensor (Vmat_empty a)\<rparr>"

definition lift_vars :: "loop_vars \<Rightarrow> floop_vars" where
  "lift_vars l = \<lparr>EV_f = lift_mat (EV l), Vmat_f = lift_tensor (Vmat l), V_i_f = lift_mat (V_i l),
                  V_a_f = lift_mat (V_a l), PF_continuous_f = PF_continuous l\<rparr>"

definition lift_state :: "vfi_state \<Rightarrow> fstate" where
  "lift_state s = \<lparr>V_f = lift_mat (V s), EV_i_f = lift_mat (EV_i s), VFdist_f = Fin (VFdist s),
                   VFiter_f = VFiter s, bound_f = map_option lift_vars (bound s)\<rparr>"

subsection \<open>Example configurations\<close>





text \<open>
  Arrays for one productivity state that stays (\<open>z = [1]\<close>, \<open>Pi = [[1]]\<close>) and the
  two-point grid \<open>kvec = [1/2, 1]\<close> (that is \<open>delta = 1/2\<close>, \<open>kbar = 1\<close>, \<open>dens = 1\<close>).
  They are the flows of cell 3, computed by hand: with \<open>alpha_l = 1/2\<close>, \<open>w = 1/2\<close> and
  \<open>alpha_k = 1\<close> the operating profit is \<open>k\<^sup>2 / 2\<close>, and
  \<open>e_a[0, j, m] = op - kvec[m] + (1 - delta) * kvec[j] - F * kvec[j]\<close>. The first arrays have
  the fixed cost \<open>F = 1\<close>, the second \<open>F = 0\<close>. The buffers hold arbitrary values.
\<close>

definition costly_arrays :: arrays where
  "costly_arrays = \<lparr>Pi = [[1]], e_a = [[[- 5 / 8, - 9 / 8], [- 1 / 2, - 1]]],
                     e_i = [[1 / 8, 1 / 2]], sizez = 1, sizek = 2,
                     EV_i_empty = [[9, 9]], Vmat_empty = [[[9, 9], [9, 9]]]\<rparr>"

definition frictionless_arrays :: arrays where
  "frictionless_arrays = \<lparr>Pi = [[1]], e_a = [[[- 1 / 8, - 5 / 8], [1 / 2, 0]]],
                           e_i = [[1 / 8, 1 / 2]], sizez = 1, sizek = 2,
                           EV_i_empty = [[9, 9]], Vmat_empty = [[[9, 9], [9, 9]]]\<rparr>"

text \<open>
  The scalars of the runs below. They differ in the tolerance and the ceiling only: a run
  that meets the tolerance 1/10 on its second pass, the same run with the ceiling 3 (the
  second pass is the last one permitted), with the tolerance 1/16 (the distance of the
  second pass), and with a tolerance that two passes do not meet.
\<close>

definition costly_params :: params where
  "costly_params = \<lparr>delta = 1 / 2, kbar = 1, lb_k = 2 / 5, dens = 1, betafirm = 1 / 2,
                     VFtol = 1 / 10, VFmaxiter = 3000\<rparr>"

definition last_pass_params :: params where
  "last_pass_params = \<lparr>delta = 1 / 2, kbar = 1, lb_k = 2 / 5, dens = 1, betafirm = 1 / 2,
                        VFtol = 1 / 10, VFmaxiter = 3\<rparr>"


definition ceiling_params :: params where
  "ceiling_params = \<lparr>delta = 1 / 2, kbar = 1, lb_k = 2 / 5, dens = 1, betafirm = 1 / 2,
                      VFtol = 1 / 1000000, VFmaxiter = 3\<rparr>"

text \<open>The states of the run on \<open>costly_arrays\<close> after the first and the second pass.\<close>

definition costly_s1 :: vfi_state where
  "costly_s1 = \<lparr>V = [[1 / 8, 1 / 2]], EV_i = [[0, 0]], VFdist = 1 / 2, VFiter = 2,
     bound = Some \<lparr>EV = [[0, 0]], Vmat = [[[- (5 / 8), - (9 / 8)], [- (1 / 2), - 1]]],
                   V_i = [[1 / 8, 1 / 2]], V_a = [[- (5 / 8), - (1 / 2)]],
                   PF_continuous = [[0, 0]]\<rparr>\<rparr>"

definition costly_s2 :: vfi_state where
  "costly_s2 = \<lparr>V = [[3 / 16, 9 / 16]], EV_i = [[1 / 8, 1 / 8]], VFdist = 1 / 16, VFiter = 3,
     bound = Some \<lparr>EV = [[1 / 8, 1 / 2]],
                   Vmat = [[[- (9 / 16), - (7 / 8)], [- (7 / 16), - (3 / 4)]]],
                   V_i = [[3 / 16, 9 / 16]], V_a = [[- (9 / 16), - (7 / 16)]],
                   PF_continuous = [[0, 0]]\<rparr>\<rparr>"

text \<open>The loop variables after the policy loop of that run.\<close>

definition costly_policy :: loop_vars where
  "costly_policy = \<lparr>EV = [[1 / 8, 1 / 2]],
                     Vmat = [[[- (9 / 16), - (7 / 8)], [- (7 / 16), - (3 / 4)]]],
                     V_i = [[3 / 16, 9 / 16]], V_a = [[- (9 / 16), - (7 / 16)]],
                     PF_continuous = [[- 1, 0]]\<rparr>"

text \<open>The final state of the run on \<open>frictionless_arrays\<close>.\<close>

definition frictionless_s2 :: vfi_state where
  "frictionless_s2 = \<lparr>V = [[3 / 16, 9 / 16]], EV_i = [[1 / 8, 1 / 8]], VFdist = 1 / 16,
     VFiter = 3,
     bound = Some \<lparr>EV = [[1 / 8, 1 / 2]], Vmat = [[[- (1 / 16), - (3 / 8)], [9 / 16, 1 / 4]]],
                   V_i = [[3 / 16, 9 / 16]], V_a = [[- (1 / 16), 9 / 16]],
                   PF_continuous = [[0, 0]]\<rparr>\<rparr>"


text \<open>
  A valid configuration whose depreciation rate is one unit in the last place of 1:
  \<open>delta = 2^-52\<close>, \<open>kbar = 1\<close>, \<open>lb_k = 1 - 5 * 2^-53\<close>, \<open>dens = 8\<close>. All three numbers are
  doubles.
\<close>

definition tiny_depreciation_config :: params where
  "tiny_depreciation_config = \<lparr>delta = 1 / 2 ^ 52, kbar = 1, lb_k = 1 - 5 / 2 ^ 53, dens = 8,
                                 betafirm = 1 / 2, VFtol = 1 / 1000000, VFmaxiter = 3000\<rparr>"

text \<open>
  A valid configuration whose depreciation rate is below half a unit in the last place of 1:
  \<open>delta = 2^-60\<close>, \<open>kbar = 1\<close>, \<open>lb_k = 0.5\<close>, \<open>dens = 5\<close>.
\<close>

definition vanishing_depreciation_config :: params where
  "vanishing_depreciation_config = \<lparr>delta = 1 / 2 ^ 60, kbar = 1, lb_k = 1 / 2, dens = 5,
                                      betafirm = 1 / 2, VFtol = 1 / 1000000, VFmaxiter = 3000\<rparr>"

text \<open>
  Arrays with non-finite flows, for the state and the grid of \<open>costly_arrays\<close>: active flows
  that are all NaN, all \<open>+inf\<close>, all \<open>-inf\<close> (what a fixed cost \<open>F\<close> that is NaN,
  \<open>-inf\<close>, \<open>+inf\<close> gives in cell 3), and the flows of cell 3 when the operating profit
  \<open>op\<close> at the larger capital is NaN.
\<close>

definition nan_cost_arrays :: farrays where
  "nan_cost_arrays = \<lparr>Pi_f = [[Fin 1]], e_a_f = [[[NaN, NaN], [NaN, NaN]]],
                       e_i_f = [[Fin (1 / 8), Fin (1 / 2)]], sizez_f = 1, sizek_f = 2,
                       EV_i_empty_f = [[Fin 9, Fin 9]],
                       Vmat_empty_f = [[[Fin 9, Fin 9], [Fin 9, Fin 9]]]\<rparr>"

definition inf_cost_arrays :: farrays where
  "inf_cost_arrays = \<lparr>Pi_f = [[Fin 1]], e_a_f = [[[PInf, PInf], [PInf, PInf]]],
                       e_i_f = [[Fin (1 / 8), Fin (1 / 2)]], sizez_f = 1, sizek_f = 2,
                       EV_i_empty_f = [[Fin 9, Fin 9]],
                       Vmat_empty_f = [[[Fin 9, Fin 9], [Fin 9, Fin 9]]]\<rparr>"

definition neg_inf_cost_arrays :: farrays where
  "neg_inf_cost_arrays = \<lparr>Pi_f = [[Fin 1]], e_a_f = [[[NInf, NInf], [NInf, NInf]]],
                           e_i_f = [[Fin (1 / 8), Fin (1 / 2)]], sizez_f = 1, sizek_f = 2,
                           EV_i_empty_f = [[Fin 9, Fin 9]],
                           Vmat_empty_f = [[[Fin 9, Fin 9], [Fin 9, Fin 9]]]\<rparr>"

definition nan_profit_arrays :: farrays where
  "nan_profit_arrays = \<lparr>Pi_f = [[Fin 1]],
                         e_a_f = [[[Fin (- 5 / 8), Fin (- 9 / 8)], [NaN, NaN]]],
                         e_i_f = [[Fin (1 / 8), NaN]], sizez_f = 1, sizek_f = 2,
                         EV_i_empty_f = [[Fin 9, Fin 9]],
                         Vmat_empty_f = [[[Fin 9, Fin 9], [Fin 9, Fin 9]]]\<rparr>"

section \<open>Properties of the capital grid\<close>




















subsection \<open>Configurations outside the valid range\<close>






section \<open>The capital grid in float64 arithmetic\<close>

text \<open>Rounding to an integer, and to a double.\<close>

lemma round_even_bounds: "\<bar>of_int (round_even r) - r\<bar> \<le> 1 / 2"
  unfolding round_even_def Let_def by (auto simp: abs_if) linarith+

lemma round_even_of_int [simp]: "round_even (of_int n) = n"
  by (simp add: round_even_def)

lemma pow2_powr: "pow2 e = 2 powr of_int e"
  by (simp add: pow2_def powr_real_of_int field_simps)

lemma fl_0 [simp]: "fl 0 = 0"
  by (simp add: fl_def)

lemma binade:
  assumes "x \<noteq> 0"
  shows "2 powr of_int \<lfloor>log 2 \<bar>x\<bar>\<rfloor> \<le> \<bar>x\<bar>" "\<bar>x\<bar> < 2 powr (of_int \<lfloor>log 2 \<bar>x\<bar>\<rfloor> + 1)"
proof -
  from assms have pos: "0 < \<bar>x\<bar>" by simp
  have "of_int \<lfloor>log 2 \<bar>x\<bar>\<rfloor> \<le> log 2 \<bar>x\<bar>" by simp
  then show "2 powr of_int \<lfloor>log 2 \<bar>x\<bar>\<rfloor> \<le> \<bar>x\<bar>"
    using pos le_log_iff [of 2 "\<bar>x\<bar>" "of_int \<lfloor>log 2 \<bar>x\<bar>\<rfloor>"] by simp
  have "log 2 \<bar>x\<bar> < of_int \<lfloor>log 2 \<bar>x\<bar>\<rfloor> + 1" by linarith
  then show "\<bar>x\<bar> < 2 powr (of_int \<lfloor>log 2 \<bar>x\<bar>\<rfloor> + 1)"
    using pos log_less_iff [of 2 "\<bar>x\<bar>" "of_int \<lfloor>log 2 \<bar>x\<bar>\<rfloor> + 1"] by simp
qed

lemma fl_error: "\<bar>fl x - x\<bar> \<le> \<bar>x\<bar> / 2 ^ 53"
proof (cases "x = 0")
  case True
  then show ?thesis by simp
next
  case False
  define e where "e = \<lfloor>log 2 \<bar>x\<bar>\<rfloor> - 52"
  define u :: real where "u = 2 powr of_int e"
  have u: "0 < u" by (simp add: u_def)
  have "u * 2 ^ 52 = 2 powr (of_int e + 52)"
    by (simp add: u_def powr_add)
  also have "\<dots> = 2 powr of_int \<lfloor>log 2 \<bar>x\<bar>\<rfloor>"
    by (simp add: e_def)
  also have "\<dots> \<le> \<bar>x\<bar>"
    by (rule binade [OF False])
  finally have low: "u * 2 ^ 52 \<le> \<bar>x\<bar>" .
  have flx: "fl x = of_int (round_even (x / u)) * u"
    using False by (simp add: fl_def e_def u_def Let_def pow2_powr)
  have "fl x - x = (of_int (round_even (x / u)) - x / u) * u"
    using u by (simp add: flx field_simps)
  then have "\<bar>fl x - x\<bar> = \<bar>of_int (round_even (x / u)) - x / u\<bar> * u"
    using u by (simp add: abs_mult)
  also have "\<dots> \<le> (1 / 2) * u"
    using round_even_bounds [of "x / u"] u by (intro mult_right_mono) simp_all
  also have "\<dots> = u * 2 ^ 52 / 2 ^ 53"
    by simp
  also have "\<dots> \<le> \<bar>x\<bar> / 2 ^ 53"
    using low by (intro divide_right_mono) simp_all
  finally show ?thesis .
qed

lemma fl_binade:
  assumes "pow2 k \<le> \<bar>x\<bar>" "\<bar>x\<bar> < pow2 (k + 1)"
  shows "fl x = of_int (round_even (x / pow2 (k - 52))) * pow2 (k - 52)"
proof -
  from assms have a: "2 powr of_int k \<le> \<bar>x\<bar>" "\<bar>x\<bar> < 2 powr (of_int k + 1)"
    by (simp_all add: pow2_powr)
  moreover have "(0::real) < 2 powr of_int k" by simp
  ultimately have pos: "0 < \<bar>x\<bar>" by linarith
  then have "\<lfloor>log 2 \<bar>x\<bar>\<rfloor> = k"
    using a le_log_iff [of 2 "\<bar>x\<bar>" "of_int k"] log_less_iff [of 2 "\<bar>x\<bar>" "of_int k + 1"]
    by (intro floor_unique) simp_all
  with pos show ?thesis
    by (simp add: fl_def Let_def)
qed

lemma fl_eval:
  assumes "pow2 k \<le> \<bar>x\<bar>" "\<bar>x\<bar> < pow2 (k + 1)"
    and "round_even (x / pow2 (k - 52)) = m"
  shows "fl x = of_int m * pow2 (k - 52)"
  using fl_binade [OF assms(1,2)] assms(3) by simp

lemma fl_1: "fl 1 = 1"
  using fl_eval [of 0 1 "2 ^ 52"]
  by (simp add: round_even_def pow2_def Let_def)

lemma round_even_mono: "r \<le> s \<Longrightarrow> round_even r \<le> round_even s"
proof -
  assume rs: "r \<le> s"
  then have f: "\<lfloor>r\<rfloor> \<le> \<lfloor>s\<rfloor>" by (rule floor_mono)
  show ?thesis
  proof (cases "\<lfloor>r\<rfloor> = \<lfloor>s\<rfloor>")
    case True
    with rs show ?thesis
      unfolding round_even_def Let_def by auto
  next
    case False
    with f have "\<lfloor>r\<rfloor> + 1 \<le> \<lfloor>s\<rfloor>" by simp
    moreover have "round_even r \<le> \<lfloor>r\<rfloor> + 1"
      unfolding round_even_def Let_def by auto
    moreover have "\<lfloor>s\<rfloor> \<le> round_even s"
      unfolding round_even_def Let_def by auto
    ultimately show ?thesis by linarith
  qed
qed

lemma pow2_pos [simp]: "0 < pow2 e"
  by (simp add: pow2_powr)

lemma pow2_add: "pow2 (a + b) = pow2 a * pow2 b"
  by (simp add: pow2_powr powr_add)

lemma pow2_52: "pow2 52 = 2 ^ 52"
  by (simp add: pow2_def)

lemma pow2_53: "pow2 53 = 2 ^ 53"
  by (simp add: pow2_def)


lemma pow2_mono: "a \<le> b \<Longrightarrow> pow2 a \<le> pow2 b"
  by (simp add: pow2_powr)

lemma pow2_scale: "pow2 k = 2 ^ 52 * pow2 (k - 52)" "pow2 (k + 1) = 2 ^ 53 * pow2 (k - 52)"
proof -
  have "k = 52 + (k - 52)" "k + 1 = 53 + (k - 52)" by simp_all
  then show "pow2 k = 2 ^ 52 * pow2 (k - 52)" "pow2 (k + 1) = 2 ^ 53 * pow2 (k - 52)"
    using pow2_add [of 52 "k - 52"] pow2_add [of 53 "k - 52"]
    by (simp_all only: pow2_52 pow2_53)
qed

text \<open>A positive number and its binade.\<close>

lemma binade_pos:
  assumes "0 < x"
  defines "k \<equiv> \<lfloor>log 2 x\<rfloor>"
  shows "pow2 k \<le> x" "x < pow2 (k + 1)"
  using binade [of x] assms by (simp_all add: pow2_powr)

lemma fl_pos_eq:
  assumes "0 < x"
  shows "fl x = of_int (round_even (x / pow2 (\<lfloor>log 2 x\<rfloor> - 52))) * pow2 (\<lfloor>log 2 x\<rfloor> - 52)"
  using assms by (simp add: fl_def Let_def)

lemma fl_in_binade:
  assumes "0 < x"
  shows "pow2 \<lfloor>log 2 x\<rfloor> \<le> fl x" "fl x \<le> pow2 (\<lfloor>log 2 x\<rfloor> + 1)"
proof -
  define k where "k = \<lfloor>log 2 x\<rfloor>"
  define s where "s = pow2 (k - 52)"
  have s: "0 < s" by (simp add: s_def)
  have k: "pow2 k = 2 ^ 52 * s" "pow2 (k + 1) = 2 ^ 53 * s"
    unfolding s_def by (rule pow2_scale)+
  from binade_pos [OF assms] have "2 ^ 52 * s \<le> x" "x < 2 ^ 53 * s"
    by (simp_all add: k k_def [symmetric])
  then have m: "2 ^ 52 \<le> x / s" "x / s \<le> 2 ^ 53"
    using s by (simp_all add: field_simps)
  have "round_even (of_int (2 ^ 52)) \<le> round_even (x / s)"
    using m(1) by (intro round_even_mono) simp
  then have lo: "2 ^ 52 \<le> round_even (x / s)"
    by (simp only: round_even_of_int)
  have "round_even (x / s) \<le> round_even (of_int (2 ^ 53))"
    using m(2) by (intro round_even_mono) simp
  then have hi: "round_even (x / s) \<le> 2 ^ 53"
    by (simp only: round_even_of_int)
  have e: "fl x = of_int (round_even (x / s)) * s"
    using fl_pos_eq [OF assms] by (simp add: s_def k_def)
  from lo have "(2 ^ 52 :: real) \<le> of_int (round_even (x / s))"
    by (metis of_int_le_iff of_int_numeral of_int_power)
  then have "2 ^ 52 * s \<le> of_int (round_even (x / s)) * s"
    using s by (intro mult_right_mono) simp_all
  then show "pow2 \<lfloor>log 2 x\<rfloor> \<le> fl x"
    by (simp add: e k k_def [symmetric])
  from hi have "of_int (round_even (x / s)) \<le> (2 ^ 53 :: real)"
    by (metis of_int_le_iff of_int_numeral of_int_power)
  then have "of_int (round_even (x / s)) * s \<le> 2 ^ 53 * s"
    using s by (intro mult_right_mono) simp_all
  then show "fl x \<le> pow2 (\<lfloor>log 2 x\<rfloor> + 1)"
    by (simp add: e k k_def [symmetric])
qed

lemma fl_pos: "0 < x \<Longrightarrow> 0 < fl x"
  using fl_in_binade(1) [of x] pow2_pos [of "\<lfloor>log 2 x\<rfloor>"] by linarith

lemma fl_neg: "x < 0 \<Longrightarrow> fl x < 0"
proof -
  assume x: "x < 0"
  have "\<bar>fl x - x\<bar> \<le> \<bar>x\<bar> / 2 ^ 53" by (rule fl_error)
  moreover have "\<bar>x\<bar> / 2 ^ 53 < \<bar>x\<bar>" using x by simp
  ultimately show ?thesis using x by linarith
qed

lemma fl_mono_pos:
  assumes "0 < x" "x \<le> y"
  shows "fl x \<le> fl y"
proof -
  from assms have y: "0 < y" by simp
  have le: "\<lfloor>log 2 x\<rfloor> \<le> \<lfloor>log 2 y\<rfloor>"
    using assms by (intro floor_mono) simp
  show ?thesis
  proof (cases "\<lfloor>log 2 x\<rfloor> = \<lfloor>log 2 y\<rfloor>")
    case True
    define s where "s = pow2 (\<lfloor>log 2 y\<rfloor> - 52)"
    have s: "0 < s" by (simp add: s_def)
    have "x / s \<le> y / s" using assms s by (simp add: divide_right_mono)
    then have "round_even (x / s) \<le> round_even (y / s)" by (rule round_even_mono)
    then have "of_int (round_even (x / s)) * s \<le> of_int (round_even (y / s)) * s"
      using s by (intro mult_right_mono) simp_all
    then show ?thesis
      using fl_pos_eq [OF assms(1)] fl_pos_eq [OF y] by (simp add: True s_def)
  next
    case False
    with le have "\<lfloor>log 2 x\<rfloor> + 1 \<le> \<lfloor>log 2 y\<rfloor>" by simp
    then have "pow2 (\<lfloor>log 2 x\<rfloor> + 1) \<le> pow2 \<lfloor>log 2 y\<rfloor>" by (rule pow2_mono)
    with fl_in_binade(2) [OF assms(1)] fl_in_binade(1) [OF y] show ?thesis by linarith
  qed
qed

lemma fl_mono_nonneg:
  assumes "0 \<le> x" "x \<le> y"
  shows "fl x \<le> fl y"
proof (cases "x = 0")
  case True
  show ?thesis
  proof (cases "y = 0")
    case True
    with \<open>x = 0\<close> show ?thesis by simp
  next
    case False
    with assms True have "0 < y" by simp
    then have "0 < fl y" by (rule fl_pos)
    with True show ?thesis by simp
  qed
next
  case False
  with assms have "0 < x" by simp
  then show ?thesis using assms(2) by (rule fl_mono_pos)
qed


lemma fl_pos_bounds:
  assumes "0 < x"
  shows "x * (99 / 100) \<le> fl x" "fl x \<le> x * (101 / 100)"
proof -
  have "\<bar>fl x - x\<bar> \<le> \<bar>x\<bar> / 2 ^ 53" by (rule fl_error)
  moreover have "\<bar>x\<bar> / 2 ^ 53 \<le> x / 100" using assms by simp
  ultimately show "x * (99 / 100) \<le> fl x" "fl x \<le> x * (101 / 100)"
    by linarith+
qed

lemma fl_neg_bounds:
  assumes "x < 0"
  shows "x * (101 / 100) \<le> fl x" "fl x \<le> x * (99 / 100)"
proof -
  have "\<bar>fl x - x\<bar> \<le> \<bar>x\<bar> / 2 ^ 53" by (rule fl_error)
  moreover have "\<bar>x\<bar> / 2 ^ 53 \<le> - x / 100" using assms by simp
  ultimately show "x * (101 / 100) \<le> fl x" "fl x \<le> x * (99 / 100)"
    by linarith+
qed

text \<open>The count of depreciation steps is at least one on a valid configuration.\<close>

lemma numb_float_pos:
  assumes "valid_grid_config p" "fl (1 - delta p) < 1" "fl (lb_k p / kbar p) < 1"
  shows "1 \<le> numb_float p"
proof -
  from assms(1) have "0 < lb_k p / kbar p" "0 < 1 - delta p"
    by (auto simp: valid_grid_config_def)
  then have "0 < fl (lb_k p / kbar p)" "0 < fl (1 - delta p)"
    by (simp_all add: fl_pos)
  with assms(2,3) have "ln (fl (lb_k p / kbar p)) < 0" "ln (fl (1 - delta p)) < 0"
    by simp_all
  then have "f_log (fl (lb_k p / kbar p)) < 0" "f_log (fl (1 - delta p)) < 0"
    unfolding f_log_def by (simp_all add: fl_neg)
  then have "0 < f_log (fl (lb_k p / kbar p)) / f_log (fl (1 - delta p))"
    by (simp add: divide_neg_neg)
  then have "0 < fl (f_log (fl (lb_k p / kbar p)) / f_log (fl (1 - delta p)))"
    by (rule fl_pos)
  then show ?thesis
    unfolding numb_float_def by linarith
qed

lemma build_grid_float_valid:
  assumes "valid_grid_config p" "fl (1 - delta p) < 1" "fl (lb_k p / kbar p) < 1"
  shows "build_grid_float p = Inr (rev (K_float p (nat (numb_float p * int (dens p)))))"
proof -
  from assms(1) have "0 < lb_k p / kbar p" "0 < 1 - delta p" "kbar p \<noteq> 0"
    by (auto simp: valid_grid_config_def)
  then have "0 < fl (lb_k p / kbar p)" "0 < fl (1 - delta p)" "kbar p \<noteq> 0"
    by (simp_all add: fl_pos)
  moreover have "0 \<le> numb_float p * int (dens p)"
    using numb_float_pos [OF assms] by simp
  ultimately show ?thesis
    using assms(2) by (simp add: build_grid_float_def Let_def)
qed


lemma K_float_length: "length (K_float p n) = n"
  by (simp add: K_float_def)

lemma K_float_nth:
  "j < n \<Longrightarrow> K_float p n ! j =
     fl (kbar p * f_pow (fl (1 - delta p)) (fl (real j / real (dens p))))"
  by (simp add: K_float_def)

lemma rev_K_float_nth: "i < n \<Longrightarrow> rev (K_float p n) ! i = K_float p n ! (n - 1 - i)"
  by (simp add: rev_nth K_float_length)

lemma K_float_decreasing:
  assumes "0 < fl (1 - delta p)" "fl (1 - delta p) < 1" "0 < kbar p" "i \<le> j" "j < n"
  shows "K_float p n ! j \<le> K_float p n ! i"
proof -
  let ?x = "fl (1 - delta p)"
  have "real i / real (dens p) \<le> real j / real (dens p)"
    using assms(4) by (simp add: divide_right_mono)
  then have y: "fl (real i / real (dens p)) \<le> fl (real j / real (dens p))"
    by (intro fl_mono_nonneg) simp_all
  have "?x powr fl (real j / real (dens p)) \<le> ?x powr fl (real i / real (dens p))"
    using y assms(1,2) by (intro powr_mono') simp_all
  moreover have "0 < ?x powr fl (real j / real (dens p))"
    using assms(1) by simp
  ultimately have "f_pow ?x (fl (real j / real (dens p))) \<le> f_pow ?x (fl (real i / real (dens p)))"
    unfolding f_pow_def by (intro fl_mono_pos)
  moreover have "0 < f_pow ?x (fl (real j / real (dens p)))"
    unfolding f_pow_def using assms(1) by (intro fl_pos) simp
  ultimately have "fl (kbar p * f_pow ?x (fl (real j / real (dens p))))
                     \<le> fl (kbar p * f_pow ?x (fl (real i / real (dens p))))"
    using assms(3) by (intro fl_mono_pos) simp_all
  then show ?thesis
    using assms(4,5) by (simp add: K_float_nth)
qed


lemma K_float_0:
  assumes "0 < fl (1 - delta p)" "fl (kbar p) = kbar p" "0 < n"
  shows "K_float p n ! 0 = kbar p"
  using assms by (simp add: K_float_nth f_pow_def fl_1)

text \<open>The doubles of the grid lie in \<open>(0, kbar]\<close>, like the exact values.\<close>

lemma K_float_bounds:
  assumes "0 < fl (1 - delta p)" "fl (1 - delta p) < 1" "0 < kbar p" "fl (kbar p) = kbar p"
    and "x \<in> set (K_float p n)"
  shows "0 < x \<and> x \<le> kbar p"
proof -
  from assms(5) obtain j where j: "j < n" "x = K_float p n ! j"
    by (metis in_set_conv_nth K_float_length)
  then have n: "0 < n" by simp
  have "0 < f_pow (fl (1 - delta p)) (fl (real j / real (dens p)))"
    unfolding f_pow_def using assms(1) by (intro fl_pos) simp
  then have "0 < kbar p * f_pow (fl (1 - delta p)) (fl (real j / real (dens p)))"
    using assms(3) by simp
  then have "0 < x"
    using j by (simp add: K_float_nth fl_pos)
  moreover have "x \<le> K_float p n ! 0"
    unfolding j(2) using assms(1-3) _ j(1) by (rule K_float_decreasing) simp
  ultimately show ?thesis
    using K_float_0 [OF assms(1,4) n] by simp
qed



text \<open>
  The count of depreciation steps when the exact quotient of the logarithms lies between
  9/4 and 11/4: the three roundings do not move it across 2 or 3.
\<close>

lemma numb_float_3:
  assumes a: "a < 0" and b: "b < 0" and ab: "9 * b > 4 * a" "4 * a > 11 * b"
  shows "\<lceil>fl (fl a / fl b)\<rceil> = 3"
proof -
  define A where "A = - a"
  define B where "B = - b"
  define M1 where "M1 = - fl a"
  define M2 where "M2 = - fl b"
  define Q where "Q = M1 / M2"
  have A: "0 < A" and B: "0 < B" using a b by (simp_all add: A_def B_def)
  have AB: "9 * B < 4 * A" "4 * A < 11 * B"
    using ab by (simp_all add: A_def B_def)
  have m1: "A * (99 / 100) \<le> M1" "M1 \<le> A * (101 / 100)"
    using fl_neg_bounds [OF a] by (simp_all add: M1_def A_def)
  have m2: "B * (99 / 100) \<le> M2" "M2 \<le> B * (101 / 100)"
    using fl_neg_bounds [OF b] by (simp_all add: M2_def B_def)
  have "0 < B * (99 / 100)" using B by simp
  with m2(1) have M2: "0 < M2" by linarith
  have q: "fl a / fl b = Q"
    by (simp add: Q_def M1_def M2_def)
  have "11 / 5 * M2 \<le> 11 / 5 * (B * (101 / 100))"
    using m2(2) by simp
  also have "\<dots> < A * (99 / 100)" using AB(1) B by linarith
  also have "\<dots> \<le> M1" by (rule m1(1))
  finally have "11 / 5 * M2 < M1" .
  then have lo: "11 / 5 < Q"
    using M2 by (simp add: Q_def field_simps)
  have "M1 \<le> A * (101 / 100)" by (rule m1(2))
  also have "\<dots> < 29 / 10 * (B * (99 / 100))" using AB(2) B by linarith
  also have "\<dots> \<le> 29 / 10 * M2" using m2(1) by simp
  finally have "M1 < 29 / 10 * M2" .
  then have hi: "Q < 29 / 10"
    using M2 by (simp add: Q_def field_simps)
  from lo have pos: "0 < Q" by linarith
  from fl_pos_bounds(1) [OF pos] lo have "2 < fl Q"
    by linarith
  moreover from fl_pos_bounds(2) [OF pos] hi have "fl Q < 3"
    by linarith
  ultimately have "\<lceil>fl Q\<rceil> = 3"
    by (intro ceiling_unique) simp_all
  then show ?thesis by (simp only: q)
qed



lemma fl_half: "fl (1 / 2) = 1 / 2"
  using fl_eval [of "- 1" "1 / 2" "2 ^ 52"]
  by (simp add: round_even_def pow2_def Let_def)
















text \<open>The grid of doubles of \<open>tiny_depreciation_config\<close>.\<close>

lemma tiny_valid: "valid_grid_config tiny_depreciation_config"
  by (simp add: valid_grid_config_def tiny_depreciation_config_def)

lemma tiny_ratio:
  "fl (lb_k tiny_depreciation_config / kbar tiny_depreciation_config) = 1 - 5 / 2 ^ 53"
  using fl_eval [of "- 1" "1 - 5 / 2 ^ 53" "2 ^ 53 - 5"]
  by (simp add: tiny_depreciation_config_def round_even_def pow2_def Let_def)

lemma tiny_rate: "fl (1 - delta tiny_depreciation_config) = 1 - 1 / 2 ^ 52"
  using fl_eval [of "- 1" "1 - 1 / 2 ^ 52" "2 ^ 53 - 2"]
  by (simp add: tiny_depreciation_config_def round_even_def pow2_def Let_def)

lemma ln_bounds_order:
  fixes s t c d :: real
  assumes "L1 \<le> - t" "- c \<le> L2" "9 * c < 4 * t"
    and "L2 \<le> - s" "- d \<le> L1" "4 * d < 11 * s"
  shows "4 * L1 < 9 * L2" "11 * L2 < 4 * L1"
proof -
  show "4 * L1 < 9 * L2" using assms(1-3) by linarith
  show "11 * L2 < 4 * L1" using assms(4-6) by linarith
qed

lemma tiny_logs:
  "4 * ln (1 - 5 / 2 ^ 53 :: real) < 9 * ln (1 - 1 / 2 ^ 52)"
  "11 * ln (1 - 1 / 2 ^ 52 :: real) < 4 * ln (1 - 5 / 2 ^ 53)"
proof -
  have u1: "ln (1 - 5 / 2 ^ 53 :: real) \<le> - (5 / 2 ^ 53)"
    by (intro ln_one_minus_pos_upper_bound) simp_all
  have "- (5 / 2 ^ 53) - 2 * (5 / 2 ^ 53)\<^sup>2 \<le> ln (1 - 5 / 2 ^ 53 :: real)"
    by (intro ln_one_minus_pos_lower_bound) simp_all
  then have l1: "- (5 / 2 ^ 53 + 2 * (5 / 2 ^ 53)\<^sup>2) \<le> ln (1 - 5 / 2 ^ 53 :: real)"
    by simp
  have u2: "ln (1 - 1 / 2 ^ 52 :: real) \<le> - (1 / 2 ^ 52)"
    by (intro ln_one_minus_pos_upper_bound) simp_all
  have "- (1 / 2 ^ 52) - 2 * (1 / 2 ^ 52)\<^sup>2 \<le> ln (1 - 1 / 2 ^ 52 :: real)"
    by (intro ln_one_minus_pos_lower_bound) simp_all
  then have l2: "- (1 / 2 ^ 52 + 2 * (1 / 2 ^ 52)\<^sup>2) \<le> ln (1 - 1 / 2 ^ 52 :: real)"
    by simp
  have n1: "9 * (1 / 2 ^ 52 + 2 * (1 / 2 ^ 52)\<^sup>2) < 4 * (5 / 2 ^ 53 :: real)"
    by (simp add: power2_eq_square)
  have n2: "4 * (5 / 2 ^ 53 + 2 * (5 / 2 ^ 53)\<^sup>2) < 11 * (1 / 2 ^ 52 :: real)"
    by (simp add: power2_eq_square)
  from ln_bounds_order [OF u1 l2 n1 u2 l1 n2]
  show "4 * ln (1 - 5 / 2 ^ 53 :: real) < 9 * ln (1 - 1 / 2 ^ 52)"
    "11 * ln (1 - 1 / 2 ^ 52 :: real) < 4 * ln (1 - 5 / 2 ^ 53)" .
qed

lemma numb_float_tiny: "numb_float tiny_depreciation_config = 3"
proof -
  have "ln (1 - 5 / 2 ^ 53 :: real) < 0" "ln (1 - 1 / 2 ^ 52 :: real) < 0"
    by simp_all
  from numb_float_3 [OF this] tiny_logs
  have "\<lceil>fl (fl (ln (1 - 5 / 2 ^ 53)) / fl (ln (1 - 1 / 2 ^ 52)))\<rceil> = 3"
    by simp
  then show ?thesis
    by (simp only: numb_float_def tiny_ratio tiny_rate f_log_def)
qed

lemma round_even_up:
  assumes "of_int n - 1 / 2 < r" "r < of_int n"
  shows "round_even r = n"
proof -
  have "\<lfloor>r\<rfloor> = n - 1"
    using assms by (intro floor_unique) simp_all
  with assms show ?thesis
    by (simp add: round_even_def)
qed

text \<open>The power for the second entry rounds to 1.\<close>

lemma tiny_root: "f_pow (1 - 1 / 2 ^ 52) (1 / 8) = 1"
proof -
  define v :: real where "v = (1 - 1 / 2 ^ 52) powr (1 / 8)"
  have "((1 - 1 / 2 ^ 54) ^ 8 :: real) < 1 - 1 / 2 ^ 52"
    by (simp add: power_divide)
  then have "((1 - 1 / 2 ^ 54) ^ 8 :: real) powr (1 / 8) < v"
    unfolding v_def by (intro powr_less_mono2) simp_all
  moreover have "((1 - 1 / 2 ^ 54) ^ 8 :: real) powr (1 / 8) = 1 - 1 / 2 ^ 54"
  proof -
    have "((1 - 1 / 2 ^ 54) ^ 8 :: real) = (1 - 1 / 2 ^ 54) powr 8"
      by (subst powr_numeral) simp_all
    then show ?thesis
      by (simp only: powr_powr) simp
  qed
  ultimately have lo: "1 - 1 / 2 ^ 54 < v" by simp
  have hi: "v < 1"
    unfolding v_def by (subst powr01_less_one) simp_all
  have r: "round_even (v * 2 ^ 53) = 2 ^ 53"
    using lo hi by (intro round_even_up) simp_all
  have "fl v = of_int (2 ^ 53) * pow2 (- 1 - 52)"
    using lo hi r by (intro fl_eval) (simp_all add: pow2_def)
  then show ?thesis
    by (simp add: f_pow_def v_def pow2_def)
qed

lemma fl_eighth: "fl (1 / 8) = 1 / 8"
  using fl_eval [of "- 3" "1 / 8" "2 ^ 52"]
  by (simp add: round_even_def pow2_def Let_def)

text \<open>
  Entries repeat on the doubles of \<open>tiny_depreciation_config\<close>, a valid configuration:
  \<open>(1 - delta) ** (1 / 8)\<close> lies within a quarter of a unit in the last place of 1 and
  rounds to 1, so the two largest entries of the grid are both \<open>kbar = 1\<close>.
\<close>

lemma grid_entries_repeat_in_float64:
  "valid_grid_config tiny_depreciation_config \<and>
   (\<exists>kvec. build_grid_float tiny_depreciation_config = Inr kvec \<and> length kvec = 24 \<and>
      kvec ! 22 = 1 \<and> kvec ! 23 = 1 \<and> \<not> distinct kvec)"
proof -
  let ?K = "K_float tiny_depreciation_config 24"
  have "fl (1 - delta tiny_depreciation_config) < 1"
    "fl (lb_k tiny_depreciation_config / kbar tiny_depreciation_config) < 1"
    by (simp_all add: tiny_ratio tiny_rate)
  from build_grid_float_valid [OF tiny_valid this]
  have b: "build_grid_float tiny_depreciation_config = Inr (rev ?K)"
    by (simp add: numb_float_tiny) (simp add: tiny_depreciation_config_def)
  have k0: "?K ! 0 = 1"
    by (simp add: K_float_nth f_pow_def tiny_rate fl_1) (simp add: tiny_depreciation_config_def fl_1)
  have d: "real 1 / real (dens tiny_depreciation_config) = 1 / 8"
    "kbar tiny_depreciation_config = 1"
    by (simp_all add: tiny_depreciation_config_def)
  have "?K ! 1 = fl (kbar tiny_depreciation_config * f_pow (fl (1 - delta tiny_depreciation_config))
                  (fl (real 1 / real (dens tiny_depreciation_config))))"
    by (rule K_float_nth) simp
  then have k1: "?K ! 1 = 1"
    by (simp only: d tiny_rate fl_eighth tiny_root) (simp add: fl_1)
  have e: "rev ?K ! 22 = 1" "rev ?K ! 23 = 1"
    using k0 k1 by (simp_all add: rev_K_float_nth)
  have "\<not> distinct (rev ?K)"
  proof
    assume "distinct (rev ?K)"
    from nth_eq_iff_index_eq [OF this, of 22 23] e show False
      by (simp add: K_float_length)
  qed
  with b e tiny_valid show ?thesis
    by (simp add: K_float_length)
qed

text \<open>
  No grid is built on \<open>vanishing_depreciation_config\<close>, a valid configuration:
  \<open>1 - delta\<close> is the double 1, its logarithm is 0, the count is infinite, and \<open>int\<close>
  raises OverflowError.
\<close>

lemma vanishing_rate: "fl (1 - delta vanishing_depreciation_config) = 1"
proof -
  have "round_even ((1 - 1 / 2 ^ 60) / pow2 (- 1 - 52)) = 2 ^ 53"
    by (intro round_even_up) (simp_all add: pow2_def)
  then have "fl (1 - 1 / 2 ^ 60) = of_int (2 ^ 53) * pow2 (- 1 - 52)"
    by (intro fl_eval) (simp_all add: pow2_def)
  then show ?thesis
    by (simp add: vanishing_depreciation_config_def pow2_def)
qed

lemma grid_not_built_for_vanishing_depreciation:
  "valid_grid_config vanishing_depreciation_config \<and>
   build_grid_float vanishing_depreciation_config = Inl OverflowError"
proof -
  have "fl (lb_k vanishing_depreciation_config / kbar vanishing_depreciation_config) = 1 / 2"
    by (simp add: vanishing_depreciation_config_def fl_half)
  then show ?thesis
    by (simp add: build_grid_float_def Let_def vanishing_rate)
       (simp add: vanishing_depreciation_config_def valid_grid_config_def)
qed

section \<open>Properties of one pass of the loop\<close>

lemma shaped_iff: "shaped m n A \<longleftrightarrow> length A = m \<and> (\<forall>i < m. length (A ! i) = n)"
  by (auto simp: shaped_def list_all_length)

lemma np_dot_length: "length (np_dot A B n) = length A"
  by (simp add: np_dot_def)

lemma np_dot_row_length: "i < length A \<Longrightarrow> length (np_dot A B n ! i) = n"
  by (simp add: np_dot_def)

lemma sum_list_map2_times:
  "length xs = length ys \<Longrightarrow> sum_list (map2 (*) xs ys) = (\<Sum>k < length ys. xs ! k * ys ! k)"
  for xs ys :: "real list"
  by (simp add: sum_list_sum_nth atLeast0LessThan)

text \<open>\<open>np_dot\<close> is the matrix product.\<close>

lemma np_dot_nth:
  assumes "i < length A" "j < n" "length (A ! i) = length B"
  shows "np_dot A B n ! i ! j = (\<Sum>k < length B. A ! i ! k * B ! k ! j)"
  using assms by (simp add: np_dot_def sum_list_map2_times)

lemma assign_EV_i_shaped:
  assumes "assign_EV_i d n E B = Inr B'" "shaped m n E" "shaped m n B"
  shows "shaped m n B'"
  using assms by (auto simp: assign_EV_i_def Let_def shaped_iff split: if_splits)

text \<open>The two slice assignments overwrite every position of the buffer.\<close>

lemma assign_EV_i_nth:
  assumes "assign_EV_i d n E B = Inr B'" "shaped m n E" "shaped m n B" "z < m" "j < n"
  shows "B' ! z ! j = (if d \<le> j then E ! z ! (j - d) else E ! z ! 0)"
proof -
  from assms(1) have d: "d \<le> n" "0 < n"
    and B': "B' = map2 (\<lambda>row ev. replicate d (ev ! 0) @ drop d row)
                   (map2 (\<lambda>old ev. take d old @ take (n - d) ev) B E) E"
    by (auto simp: assign_EV_i_def Let_def split: if_splits)
  from assms have l: "length E = m" "length B = m" "length (E ! z) = n" "length (B ! z) = n"
    by (auto simp: shaped_iff)
  have row: "B' ! z = replicate d (E ! z ! 0) @ drop d (take d (B ! z) @ take (n - d) (E ! z))"
    using l assms(4) by (simp add: B')
  also have "\<dots> = replicate d (E ! z ! 0) @ take (n - d) (E ! z)"
    using l d by simp
  finally have row': "B' ! z = replicate d (E ! z ! 0) @ take (n - d) (E ! z)" .
  show "B' ! z ! j = (if d \<le> j then E ! z ! (j - d) else E ! z ! 0)"
    using l d assms(5) by (simp add: row' nth_append)
qed

lemma amax_Max: "xs \<noteq> [] \<Longrightarrow> amax xs = Max (set xs)"
proof (cases xs)
  case Nil
  assume "xs \<noteq> []"
  with Nil show ?thesis by simp
next
  case (Cons x ys)
  then show ?thesis using Max.set_eq_fold [of x ys] by (simp add: amax_def)
qed

lemma create_Vmat_nth:
  "z < m \<Longrightarrow> k < n \<Longrightarrow> k' < n \<Longrightarrow>
   create_Vmat E e b P m n W ! z ! k ! k' = e ! z ! k ! k' + b * E ! z ! k'"
  by (simp add: create_Vmat_def)

lemma create_Vmat_row: "z < m \<Longrightarrow> k < n \<Longrightarrow> length (create_Vmat E e b P m n W ! z ! k) = n"
  by (simp add: create_Vmat_def)

lemma create_Vmat_shape:
  "length (create_Vmat E e b P m n W) = m"
  "z < m \<Longrightarrow> length (create_Vmat E e b P m n W ! z) = n"
  by (simp_all add: create_Vmat_def)

text \<open>
  A pass returns exactly when there is a productivity row and a capital column and the
  shift \<open>dens\<close> fits into the grid; a valid grid has \<open>sizek = numb * dens \<ge> dens\<close>.
\<close>

lemma vfi_pass_returns:
  "(\<exists>s'. vfi_pass p a s = Inr s') \<longleftrightarrow> 0 < sizek a \<and> dens p \<le> sizek a \<and> 0 < sizez a"
  by (auto simp: vfi_pass_def Let_def assign_EV_i_def)

text \<open>What a pass that returns has computed.\<close>

lemma vfi_pass_Inr:
  assumes "vfi_pass p a s = Inr s'"
  obtains B and l :: loop_vars where
    "assign_EV_i (dens p) (sizek a) (np_dot (Pi a) (V s) (sizek a)) (EV_i s) = Inr B"
    "sizez a \<noteq> 0"
    "bound s' = Some l"
    "EV l = np_dot (Pi a) (V s) (sizek a)"
    "Vmat l = create_Vmat (EV l) (e_a a) (betafirm p) (Pi a) (sizez a) (sizek a)
                (case bound s of None \<Rightarrow> Vmat_empty a | Some l' \<Rightarrow> Vmat l')"
    "V_i l = map2 (map2 (\<lambda>e ev. e + betafirm p * ev)) (e_i a) B"
    "V_a l = map (map amax) (Vmat l)"
    "PF_continuous l = map (map (\<lambda>row. int (argmax row))) (Vmat l)"
    "EV_i s' = B"
    "V s' = map2 (map2 max) (V_a l) (V_i l)"
    "VFdist s' = amax (concat (map2 (map2 (\<lambda>x y. \<bar>x - y\<bar>)) (V s') (V s)))"
    "VFiter s' = VFiter s + 1"
proof -
  from assms obtain B where
    B: "assign_EV_i (dens p) (sizek a) (np_dot (Pi a) (V s) (sizek a)) (EV_i s) = Inr B"
    by (auto simp: vfi_pass_def Let_def split: sum.splits)
  from assms B have z: "sizez a \<noteq> 0"
    by (auto simp: vfi_pass_def Let_def split: if_splits)
  from assms B z obtain l :: loop_vars where l: "bound s' = Some l"
    by (auto simp: vfi_pass_def Let_def)
  show thesis
    using assms B z l by (intro that [OF B z l]) (auto simp: vfi_pass_def Let_def)
qed

lemma vfi_pass_VFiter: "vfi_pass p a s = Inr s' \<Longrightarrow> VFiter s' = VFiter s + 1"
  by (erule vfi_pass_Inr)

lemma vfi_pass_shapes:
  assumes "wf_arrays a" "shaped (sizez a) (sizek a) (V s)" "shaped (sizez a) (sizek a) (EV_i s)"
    "vfi_pass p a s = Inr s'"
  shows "shaped (sizez a) (sizek a) (V s')" "shaped (sizez a) (sizek a) (EV_i s')"
proof -
  from assms(4) obtain B and l :: loop_vars where
    B: "assign_EV_i (dens p) (sizek a) (np_dot (Pi a) (V s) (sizek a)) (EV_i s) = Inr B"
    and l: "EV l = np_dot (Pi a) (V s) (sizek a)"
      "Vmat l = create_Vmat (EV l) (e_a a) (betafirm p) (Pi a) (sizez a) (sizek a)
                (case bound s of None \<Rightarrow> Vmat_empty a | Some l' \<Rightarrow> Vmat l')"
      "V_i l = map2 (map2 (\<lambda>e ev. e + betafirm p * ev)) (e_i a) B"
      "V_a l = map (map amax) (Vmat l)"
    and s': "EV_i s' = B" "V s' = map2 (map2 max) (V_a l) (V_i l)"
    by (rule vfi_pass_Inr)
  from assms(1) have P: "length (Pi a) = sizez a" and E: "shaped (sizez a) (sizek a) (e_i a)"
    by (simp_all add: wf_arrays_def shaped_iff)
  have EVs: "shaped (sizez a) (sizek a) (np_dot (Pi a) (V s) (sizek a))"
    using P by (simp add: shaped_iff np_dot_length np_dot_row_length)
  from assign_EV_i_shaped [OF B EVs assms(3)]
  show Bs: "shaped (sizez a) (sizek a) (EV_i s')" by (simp add: s')
  then have Bs': "shaped (sizez a) (sizek a) B" by (simp add: s')
  show "shaped (sizez a) (sizek a) (V s')"
    using E Bs' by (auto simp: shaped_iff s' l create_Vmat_shape)
qed

text \<open>Every state in which the loop condition is tested holds arrays of the script's shapes.\<close>

lemma reached_shapes:
  assumes "wf_arrays a" "reached p a s"
  shows "shaped (sizez a) (sizek a) (V s) \<and> shaped (sizez a) (sizek a) (EV_i s)"
  using assms(2)
proof (induction rule: reached.induct)
  case start
  from assms(1) show ?case
    by (simp add: vfi_init_def wf_arrays_def shaped_iff)
next
  case (pass s s')
  with vfi_pass_shapes [OF assms(1) _ _ pass.hyps(3)] show ?case by blast
qed

lemma EV_is_product:
  assumes "wf_arrays a" "shaped (sizez a) (sizek a) (V s)" "z < sizez a" "j < sizek a"
  shows "np_dot (Pi a) (V s) (sizek a) ! z ! j = (\<Sum>z' < sizez a. Pi a ! z ! z' * V s ! z' ! j)"
proof -
  from assms have "z < length (Pi a)" "length (Pi a ! z) = length (V s)" "length (V s) = sizez a"
    by (simp_all add: wf_arrays_def shaped_iff)
  with np_dot_nth [of z "Pi a" j "sizek a" "V s"] assms(4) show ?thesis by simp
qed

text \<open>The first two passes of the run on \<open>costly_arrays\<close>.\<close>

lemma costly_wf: "wf_arrays costly_arrays"
  by (simp add: wf_arrays_def shaped_def costly_arrays_def)

lemma costly_pass1: "vfi_pass costly_params costly_arrays (vfi_init costly_arrays) = Inr costly_s1"
  by code_simp

lemma costly_pass2: "vfi_pass costly_params costly_arrays costly_s1 = Inr costly_s2"
  by code_simp

lemma costly_cond0: "vfi_cond costly_params (vfi_init costly_arrays)"
  by (simp add: vfi_cond_def vfi_init_def costly_params_def)

lemma costly_cond1: "vfi_cond costly_params costly_s1"
  by (simp add: vfi_cond_def costly_s1_def costly_params_def)

lemma costly_reached1: "reached costly_params costly_arrays costly_s1"
  using reached.start costly_cond0 costly_pass1 by (rule reached.pass)

text \<open>
  C5: in every pass of the loop that the driver makes (a pass from a state \<open>s\<close> in which
  the loop condition was tested, on arrays of the script's shapes), for every productivity
  index \<open>z\<close> and capital index \<open>j\<close>, the inactive continuation array written by the pass
  is \<open>EV_i[z, j] = EV[z, j - dens]\<close> when \<open>j \<ge> dens\<close> and \<open>EV_i[z, j] = EV[z, 0]\<close> when
  \<open>j < dens\<close>; the index read is inside the grid; and \<open>EV\<close> is the matrix product of
  \<open>Pi\<close> with the value function \<open>V\<close> the pass started from.
\<close>

theorem EV_i_is_EV_shifted_and_clamped:
  assumes "wf_arrays a" "reached p a s" "vfi_cond p s" "vfi_pass p a s = Inr s'"
    and "z < sizez a" "j < sizek a"
  shows "\<exists>l. bound s' = Some l \<and>
           (if dens p \<le> j then j - dens p else 0) < sizek a \<and>
           EV_i s' ! z ! j = (if dens p \<le> j then EV l ! z ! (j - dens p) else EV l ! z ! 0) \<and>
           (\<forall>j' < sizek a. EV l ! z ! j' = (\<Sum>z' < sizez a. Pi a ! z ! z' * V s ! z' ! j'))"
proof -
  from assms(4) obtain B and l :: loop_vars where
    B: "assign_EV_i (dens p) (sizek a) (np_dot (Pi a) (V s) (sizek a)) (EV_i s) = Inr B"
    and l: "bound s' = Some l" "EV l = np_dot (Pi a) (V s) (sizek a)" "EV_i s' = B"
    by (rule vfi_pass_Inr)
  from reached_shapes [OF assms(1,2)]
  have sh: "shaped (sizez a) (sizek a) (V s)" "shaped (sizez a) (sizek a) (EV_i s)" by simp_all
  from assms(1) have "length (Pi a) = sizez a" by (simp add: wf_arrays_def shaped_iff)
  then have EVs: "shaped (sizez a) (sizek a) (np_dot (Pi a) (V s) (sizek a))"
    by (simp add: shaped_iff np_dot_length np_dot_row_length)
  have "(if dens p \<le> j then j - dens p else 0) < sizek a"
    using assms(6) by auto
  moreover have "EV_i s' ! z ! j = (if dens p \<le> j then EV l ! z ! (j - dens p) else EV l ! z ! 0)"
    using assign_EV_i_nth [OF B EVs sh(2) assms(5,6)] by (simp add: l)
  moreover have "\<forall>j' < sizek a. EV l ! z ! j' = (\<Sum>z' < sizez a. Pi a ! z ! z' * V s ! z' ! j')"
    using EV_is_product [OF assms(1) sh(1) assms(5)] by (simp add: l)
  ultimately show ?thesis using l(1) by blast
qed

text \<open>
  The statement at the second pass of the run on \<open>costly_arrays\<close> (\<open>dens = 1\<close>), for the
  clamped index \<open>j = 0\<close> and the shifted index \<open>j = 1\<close>.
\<close>

theorem EV_i_is_EV_shifted_and_clamped_witness:
  "wf_arrays costly_arrays \<and> reached costly_params costly_arrays costly_s1 \<and>
   vfi_cond costly_params costly_s1 \<and>
   vfi_pass costly_params costly_arrays costly_s1 = Inr costly_s2 \<and>
   (\<exists>l. bound costly_s2 = Some l \<and>
      EV_i costly_s2 ! 0 ! 0 = EV l ! 0 ! 0 \<and> EV_i costly_s2 ! 0 ! 1 = EV l ! 0 ! (1 - 1) \<and>
      EV l ! 0 ! 1 = Pi costly_arrays ! 0 ! 0 * V costly_s1 ! 0 ! 1)"
proof -
  note t = EV_i_is_EV_shifted_and_clamped [OF costly_wf costly_reached1 costly_cond1 costly_pass2]
  from t [of 0 0] t [of 0 1] obtain l where
    "bound costly_s2 = Some l"
    "EV_i costly_s2 ! 0 ! 0 = EV l ! 0 ! 0" "EV_i costly_s2 ! 0 ! 1 = EV l ! 0 ! (1 - 1)"
    "EV l ! 0 ! 1 = Pi costly_arrays ! 0 ! 0 * V costly_s1 ! 0 ! 1"
    by (auto simp: costly_arrays_def costly_params_def)
  with costly_wf costly_reached1 costly_cond1 costly_pass2 show ?thesis by blast
qed

text \<open>
  C7: in every pass, for every triple \<open>(z, k, k')\<close>, the candidate value is
  \<open>Vmat[z, k, k'] = e_a[z, k, k'] + betafirm * EV[z, k']\<close>, where \<open>EV\<close> is the matrix
  product of \<open>Pi\<close> with the value function \<open>V\<close> the pass started from; and the new value
  function is, entry by entry, the larger of the maximum of \<open>Vmat[z, k, \<cdot>]\<close> over \<open>k'\<close> and
  the inactive value \<open>e_i[z, k] + betafirm * EV_i[z, k]\<close>.
\<close>

theorem Vmat_and_V_update:
  assumes "wf_arrays a" "reached p a s" "vfi_cond p s" "vfi_pass p a s = Inr s'"
    and "z < sizez a" "k < sizek a" "k' < sizek a"
  shows "\<exists>l. bound s' = Some l \<and>
           Vmat l ! z ! k ! k' = e_a a ! z ! k ! k' + betafirm p * EV l ! z ! k' \<and>
           (\<forall>m < sizek a. EV l ! z ! m = (\<Sum>z' < sizez a. Pi a ! z ! z' * V s ! z' ! m)) \<and>
           V s' ! z ! k = max (Max ((\<lambda>m. Vmat l ! z ! k ! m) ` {..< sizek a}))
                              (e_i a ! z ! k + betafirm p * EV_i s' ! z ! k)"
proof -
  from assms(4) obtain B and l :: loop_vars where
    B: "assign_EV_i (dens p) (sizek a) (np_dot (Pi a) (V s) (sizek a)) (EV_i s) = Inr B"
    and l: "bound s' = Some l" "EV l = np_dot (Pi a) (V s) (sizek a)"
      "Vmat l = create_Vmat (EV l) (e_a a) (betafirm p) (Pi a) (sizez a) (sizek a)
                (case bound s of None \<Rightarrow> Vmat_empty a | Some l' \<Rightarrow> Vmat l')"
      "V_i l = map2 (map2 (\<lambda>e ev. e + betafirm p * ev)) (e_i a) B"
      "V_a l = map (map amax) (Vmat l)"
    and s': "EV_i s' = B" "V s' = map2 (map2 max) (V_a l) (V_i l)"
    by (rule vfi_pass_Inr)
  from reached_shapes [OF assms(1,2)]
  have sh: "shaped (sizez a) (sizek a) (V s)" "shaped (sizez a) (sizek a) (EV_i s)" by simp_all
  from vfi_pass_shapes [OF assms(1) sh assms(4)]
  have Bs: "shaped (sizez a) (sizek a) B" by (simp add: s')
  from assms(1) have E: "shaped (sizez a) (sizek a) (e_i a)" by (simp add: wf_arrays_def)
  have 1: "Vmat l ! z ! k ! k' = e_a a ! z ! k ! k' + betafirm p * EV l ! z ! k'"
    using assms(5-7) by (simp add: l(3) create_Vmat_nth)
  have 2: "\<forall>m < sizek a. EV l ! z ! m = (\<Sum>z' < sizez a. Pi a ! z ! z' * V s ! z' ! m)"
    using EV_is_product [OF assms(1) sh(1) assms(5)] by (simp add: l)
  have row: "length (Vmat l ! z ! k) = sizek a" "length (Vmat l) = sizez a"
    "length (Vmat l ! z) = sizek a"
    using assms(5,6) by (simp_all add: l(3) create_Vmat_row create_Vmat_shape)
  then have ne: "Vmat l ! z ! k \<noteq> []" using assms(7) by auto
  have "set (Vmat l ! z ! k) = (\<lambda>m. Vmat l ! z ! k ! m) ` {..< sizek a}"
    using row(1) by (auto simp: set_conv_nth)
  with amax_Max [OF ne]
  have Va: "V_a l ! z ! k = Max ((\<lambda>m. Vmat l ! z ! k ! m) ` {..< sizek a})"
    using row assms(5,6) by (simp add: l(5))
  have Vi: "V_i l ! z ! k = e_i a ! z ! k + betafirm p * EV_i s' ! z ! k"
    using E Bs assms(5,6) by (simp add: l(4) s' shaped_iff)
  have "V s' ! z ! k = max (V_a l ! z ! k) (V_i l ! z ! k)"
    using E Bs row assms(5,6) by (simp add: s'(2) l(4,5) shaped_iff)
  with Va Vi have 3: "V s' ! z ! k = max (Max ((\<lambda>m. Vmat l ! z ! k ! m) ` {..< sizek a}))
                              (e_i a ! z ! k + betafirm p * EV_i s' ! z ! k)" by simp
  from l(1) 1 2 3 show ?thesis by blast
qed

text \<open>
  The statement at the second pass of the run on \<open>costly_arrays\<close>, for the triple
  \<open>(0, 1, 0)\<close>; the maximum over the two choices \<open>k'\<close> is written out.
\<close>

theorem Vmat_and_V_update_witness:
  "wf_arrays costly_arrays \<and> reached costly_params costly_arrays costly_s1 \<and>
   vfi_cond costly_params costly_s1 \<and>
   vfi_pass costly_params costly_arrays costly_s1 = Inr costly_s2 \<and>
   (\<exists>l. bound costly_s2 = Some l \<and>
      Vmat l ! 0 ! 1 ! 0 = e_a costly_arrays ! 0 ! 1 ! 0 + betafirm costly_params * EV l ! 0 ! 0 \<and>
      EV l ! 0 ! 0 = Pi costly_arrays ! 0 ! 0 * V costly_s1 ! 0 ! 0 \<and>
      V costly_s2 ! 0 ! 1 = max (max (Vmat l ! 0 ! 1 ! 0) (Vmat l ! 0 ! 1 ! 1))
         (e_i costly_arrays ! 0 ! 1 + betafirm costly_params * EV_i costly_s2 ! 0 ! 1))"
proof -
  have i: "{..< (2::nat)} = {0, 1}" by auto
  note t = Vmat_and_V_update [OF costly_wf costly_reached1 costly_cond1 costly_pass2]
  from t [of 0 1 0] obtain l where
    "bound costly_s2 = Some l"
    "Vmat l ! 0 ! 1 ! 0 = e_a costly_arrays ! 0 ! 1 ! 0 + betafirm costly_params * EV l ! 0 ! 0"
    "EV l ! 0 ! 0 = Pi costly_arrays ! 0 ! 0 * V costly_s1 ! 0 ! 0"
    "V costly_s2 ! 0 ! 1 = max (max (Vmat l ! 0 ! 1 ! 0) (Vmat l ! 0 ! 1 ! 1))
         (e_i costly_arrays ! 0 ! 1 + betafirm costly_params * EV_i costly_s2 ! 0 ! 1)"
    by (auto simp: costly_arrays_def i)
  with costly_wf costly_reached1 costly_cond1 costly_pass2 show ?thesis by blast
qed

section \<open>Properties of the loop\<close>


lemma vfi_while_reached: "vfi_while p a s = Inr t \<Longrightarrow> reached p a s \<Longrightarrow> reached p a t"
proof (induction p a s rule: vfi_while.induct)
  case (1 p a s)
  show ?case
  proof (cases "vfi_cond p s")
    case True
    with "1.prems" obtain s' where s': "vfi_pass p a s = Inr s'" "vfi_while p a s' = Inr t"
      by (subst (asm) vfi_while.simps) (auto split: sum.splits)
    from "1.prems"(2) True s'(1) have "reached p a s'" by (rule reached.pass)
    with "1.IH" True s' show ?thesis by blast
  next
    case False
    with "1.prems" have "t = s" by (subst (asm) vfi_while.simps) simp
    with "1.prems" show ?thesis by simp
  qed
qed

lemma reached_VFiter: "reached p a s \<Longrightarrow> 1 \<le> VFiter s \<and> VFiter s \<le> max 1 (VFmaxiter p)"
proof (induction rule: reached.induct)
  case start
  show ?case by (simp add: vfi_init_def)
next
  case (pass s s')
  then show ?case by (auto simp: vfi_cond_def dest: vfi_pass_VFiter)
qed

text \<open>With a ceiling of at least 1 the counter ends between 1 and the ceiling.\<close>

lemma counter_within_ceiling:
  assumes "vfi_while p a (vfi_init a) = Inr s" "1 \<le> VFmaxiter p"
  shows "1 \<le> VFiter s \<and> VFiter s \<le> VFmaxiter p"
  using reached_VFiter [OF vfi_while_reached [OF assms(1) reached.start]] assms(2) by simp

text \<open>A budget of \<open>VFmaxiter - VFiter\<close> passes is enough from any state.\<close>

lemma vfi_fuel_enough:
  "VFmaxiter p - VFiter s \<le> n \<Longrightarrow> vfi_fuel n p a s = Some (vfi_while p a s)"
proof (induction n arbitrary: s)
  case 0
  then have "\<not> vfi_cond p s" by (simp add: vfi_cond_def)
  then show ?case by (subst vfi_while.simps) simp
next
  case (Suc n)
  show ?case
  proof (cases "vfi_cond p s")
    case False
    then show ?thesis by (subst vfi_while.simps) simp
  next
    case True
    show ?thesis
    proof (cases "vfi_pass p a s")
      case (Inl e)
      with True show ?thesis by (subst vfi_while.simps) simp
    next
      case (Inr s')
      then have "VFiter s' = VFiter s + 1" by (rule vfi_pass_VFiter)
      with Suc.prems have "VFmaxiter p - VFiter s' \<le> n" by simp
      then have "vfi_fuel n p a s' = Some (vfi_while p a s')" by (rule Suc.IH)
      with True Inr show ?thesis by (subst vfi_while.simps) simp
    qed
  qed
qed

text \<open>
  C9: for every ceiling \<open>VFmaxiter\<close> and all inputs the loop terminates: the counter starts
  at 1, every pass increases it by exactly 1, and a budget of \<open>VFmaxiter - 1\<close> passes is
  enough for the loop to finish (with its result or with the exception of a pass), whatever
  the distances are. The loop itself is a total function, by the measure
  \<open>VFmaxiter - VFiter\<close>.
\<close>

theorem vfi_loop_terminates_within_ceiling:
  "VFiter (vfi_init a) = 1 \<and>
   (\<forall>s s'. vfi_pass p a s = Inr s' \<longrightarrow> VFiter s' = VFiter s + 1) \<and>
   vfi_fuel (VFmaxiter p - 1) p a (vfi_init a) = Some (vfi_while p a (vfi_init a))"
proof (intro conjI allI impI)
  show "VFiter (vfi_init a) = 1" by (simp add: vfi_init_def)
  then show "vfi_fuel (VFmaxiter p - 1) p a (vfi_init a) = Some (vfi_while p a (vfi_init a))"
    by (intro vfi_fuel_enough) simp
qed (rule vfi_pass_VFiter)

lemma ceiling_run: "vfi_while ceiling_params costly_arrays (vfi_init costly_arrays) = Inr costly_s2"
  by code_simp

lemma ceiling_short: "vfi_fuel 1 ceiling_params costly_arrays (vfi_init costly_arrays) = None"
  by code_simp

text \<open>
  The statement at a run that never meets its tolerance: with the ceiling 3 the loop makes
  the two passes the budget allows (one pass is not enough) and stops with a distance above
  the tolerance.
\<close>

theorem vfi_loop_terminates_within_ceiling_witness:
  "VFiter (vfi_init costly_arrays) = 1 \<and>
   vfi_pass ceiling_params costly_arrays costly_s1 = Inr costly_s2 \<and>
   VFiter costly_s2 = VFiter costly_s1 + 1 \<and>
   vfi_fuel (VFmaxiter ceiling_params - 1) ceiling_params costly_arrays (vfi_init costly_arrays)
     = Some (Inr costly_s2) \<and>
   vfi_fuel 1 ceiling_params costly_arrays (vfi_init costly_arrays) = None \<and>
   VFtol ceiling_params < VFdist costly_s2"
proof -
  note t = vfi_loop_terminates_within_ceiling [of costly_arrays ceiling_params]
  have p: "vfi_pass ceiling_params costly_arrays costly_s1 = Inr costly_s2" by code_simp
  with t have "VFiter costly_s2 = VFiter costly_s1 + 1" by blast
  moreover from t have "vfi_fuel (VFmaxiter ceiling_params - 1) ceiling_params costly_arrays
      (vfi_init costly_arrays) = Some (Inr costly_s2)"
    by (simp only: ceiling_run)
  moreover have "VFtol ceiling_params < VFdist costly_s2"
    by (simp add: ceiling_params_def costly_s2_def)
  ultimately show ?thesis using t p ceiling_short by blast
qed

section \<open>The report\<close>




text \<open>
  The report tests the counter, not the distance. A run that first meets the tolerance on
  the last pass the ceiling permits (here the second pass, with the ceiling 3) ends with
  the counter at the ceiling, and the script prints the not-converged message for it.
\<close>

lemma last_pass_reported_as_not_converged:
  "vfi_while last_pass_params costly_arrays (vfi_init costly_arrays) = Inr costly_s2 \<and>
   VFdist costly_s2 < VFtol last_pass_params \<and> VFiter costly_s2 = VFmaxiter last_pass_params \<and>
   vfi_report last_pass_params costly_s2 = Did_not_converge"
  by code_simp


section \<open>The policy loop\<close>

text \<open>
  What the policy loop stores for a state \<open>(z, k)\<close>, from the arrays \<open>V_i\<close>, \<open>V_a\<close> and
  \<open>PF_continuous\<close> of the last pass: in the inactive branch the index is \<open>k - dens\<close>,
  whatever its sign.
\<close>

lemma policy_entries:
  assumes "vfi_cell p a = Inr (s, msg, Inr (PFd, pol))" "bound s = Some l"
    and "z < sizez a" "k < sizek a"
  shows "\<exists>l'. pol = Some l' \<and>
           (if V_i l ! z ! k \<ge> V_a l ! z ! k
            then PFd ! z ! k = 0 \<and> PF_continuous l' ! z ! k = int k - int (dens p)
            else PFd ! z ! k = 1 \<and> PF_continuous l' ! z ! k = PF_continuous l ! z ! k)"
proof -
  from assms(1) have "policy_loop p a s = Inr (PFd, pol)"
    by (auto simp: vfi_cell_def split: sum.splits)
  with assms(2-4) show ?thesis
    by (auto simp: policy_loop_def np_max_def)
qed

text \<open>
  C6: at termination, for every state \<open>(z, k)\<close> at which the active and the inactive value
  of the last pass are exactly equal, the discrete policy is 0 (inactive).
\<close>

theorem ties_resolve_to_inactive:
  assumes "vfi_cell p a = Inr (s, msg, Inr (PFd, pol))" "bound s = Some l"
    and "z < sizez a" "k < sizek a" "V_a l ! z ! k = V_i l ! z ! k"
  shows "PFd ! z ! k = 0"
  using policy_entries [OF assms(1-4)] assms(5) by auto

lemma frictionless_cell:
  "vfi_cell costly_params frictionless_arrays =
     Inr (frictionless_s2, Converged 3, Inr ([[0, 0]],
          Some \<lparr>EV = [[1 / 8, 1 / 2]], Vmat = [[[- (1 / 16), - (3 / 8)], [9 / 16, 1 / 4]]],
                V_i = [[3 / 16, 9 / 16]], V_a = [[- (1 / 16), 9 / 16]],
                PF_continuous = [[- 1, 0]]\<rparr>))"
  by code_simp

text \<open>
  The statement at the run on \<open>frictionless_arrays\<close>: without a fixed cost, at the larger
  capital the best active choice is the depreciated capital itself, and both values are
  9/16.
\<close>

theorem ties_resolve_to_inactive_witness:
  "\<exists>msg PFd pol l.
     vfi_cell costly_params frictionless_arrays = Inr (frictionless_s2, msg, Inr (PFd, pol)) \<and>
     bound frictionless_s2 = Some l \<and> 0 < sizez frictionless_arrays \<and>
     1 < sizek frictionless_arrays \<and> V_a l ! 0 ! 1 = 9 / 16 \<and> V_i l ! 0 ! 1 = 9 / 16 \<and>
     PFd ! 0 ! 1 = 0"
proof -
  obtain l where b: "bound frictionless_s2 = Some l" "V_a l ! 0 ! 1 = 9 / 16"
      "V_i l ! 0 ! 1 = 9 / 16"
    by (simp add: frictionless_s2_def)
  have z: "0 < sizez frictionless_arrays" "1 < sizek frictionless_arrays"
    by (simp_all add: frictionless_arrays_def)
  from b have "V_a l ! 0 ! 1 = V_i l ! 0 ! 1" by simp
  from ties_resolve_to_inactive [OF frictionless_cell b(1) z this]
  have "[[0 :: int, 0]] ! 0 ! 1 = 0" .
  with frictionless_cell b z show ?thesis by blast
qed

text \<open>
  C1 fails on the code. On the run on \<open>costly_arrays\<close> (\<open>dens = 1\<close>) the state
  \<open>(z, k) = (0, 0)\<close> is inactive at termination, with \<open>k < dens\<close>, and the script stores the
  continuous-choice index \<open>np.max(0 - 1, 0) = -1\<close>, where the claim has \<open>max(0 - 1, 0) = 0\<close>.
\<close>

theorem inactive_index_not_floored:
  "vfi_cell costly_params costly_arrays =
     Inr (costly_s2, Converged 3, Inr ([[0, 0]], Some costly_policy)) \<and>
   V_i costly_policy ! 0 ! 0 \<ge> V_a costly_policy ! 0 ! 0 \<and>
   0 < dens costly_params \<and>
   PF_continuous costly_policy ! 0 ! 0 = - 1 \<and>
   max (int 0 - int (dens costly_params)) 0 = 0"
  by code_simp

section \<open>Non-finite flows\<close>

subsection \<open>Finite arrays\<close>

text \<open>
  On finite values every operation of the second form is the operation on the reals, so that
  on finite arrays the pass \<open>f_pass\<close> is the pass \<open>vfi_pass\<close>, and the loop \<open>f_while\<close>
  is the loop \<open>vfi_while\<close>.
\<close>

lemma f_sum_Fin: "f_sum (map Fin xs) = Fin (sum_list xs)"
  by (induction xs) (simp_all add: f_sum_def)

lemma f_sum_Fin_comp: "f_sum (map (Fin \<circ> g) xs) = Fin (sum_list (map g xs))"
  using f_sum_Fin [of "map g xs"] by simp

lemma map2_f_mul_Fin: "map2 f_mul (map Fin xs) (map Fin ys) = map Fin (map2 (*) xs ys)"
  by (induction xs ys rule: list_induct2') simp_all

lemma map2_f_mul_Fin_comp:
  "map2 f_mul (map Fin xs) (map (Fin \<circ> g) zs) = map Fin (map2 (*) xs (map g zs))"
  using map2_f_mul_Fin [of xs "map g zs"] by simp

lemma f_dot_lift:
  assumes "\<forall>b \<in> set B. length b = n"
  shows "f_dot (lift_mat A) (lift_mat B) n = lift_mat (np_dot A B n)"
proof -
  have col: "map ((\<lambda>b. b ! j) \<circ> map Fin) B = map Fin (map (\<lambda>b. b ! j) B)" if "j < n" for j
    using assms that by simp
  show ?thesis
    by (simp add: f_dot_def np_dot_def lift_mat_def col map2_f_mul_Fin_comp f_sum_Fin_comp)
qed

lemma np_maximum_Fin: "np_maximum (Fin x) (Fin y) = Fin (max x y)"
  by (simp add: np_maximum_def max_def)

lemma fold_np_maximum_Fin: "fold np_maximum (map Fin xs) (Fin a) = Fin (fold max xs a)"
  by (induction xs arbitrary: a) (simp_all add: np_maximum_Fin)

lemma f_amax_Fin: "xs \<noteq> [] \<Longrightarrow> f_amax (map Fin xs) = Fin (amax xs)"
  by (cases xs) (simp_all add: f_amax_def amax_def fold_np_maximum_Fin)

lemma f_argmax_scan_Fin:
  "f_argmax_scan (Fin best) k i (map Fin xs) = argmax_scan best k i xs"
  by (induction xs arbitrary: best k i) (auto simp: f_le_def)

lemma f_argmax_Fin: "xs \<noteq> [] \<Longrightarrow> f_argmax (map Fin xs) = argmax xs"
  by (cases xs) (simp_all add: f_argmax_def argmax_def f_argmax_scan_Fin)

lemma assign_EV_i_lift:
  assumes "\<forall>ev \<in> set E. length ev = n"
  shows "assign_EV_i d n (lift_mat E) (lift_mat B) =
           (case assign_EV_i d n E B of Inl e \<Rightarrow> Inl e | Inr B' \<Rightarrow> Inr (lift_mat B'))"
proof (cases "n = 0 \<or> n < d")
  case True
  then show ?thesis by (auto simp: assign_EV_i_def)
next
  case False
  then have n: "0 < n" "d \<le> n" by simp_all
  have h: "(map Fin ev) ! 0 = Fin (ev ! 0)" if "ev \<in> set E" for ev
    using assms that n by simp
  have 1: "map2 (\<lambda>old ev. take d old @ take (n - d) ev) (map (map Fin) B) (map (map Fin) E)
             = map (map Fin) (map2 (\<lambda>old ev. take d old @ take (n - d) ev) B E)"
    by (auto simp: zip_map_map take_map)
  have 2: "map2 (\<lambda>row ev. replicate d (ev ! 0) @ drop d row) (map (map Fin) B1) (map (map Fin) E)
             = map (map Fin) (map2 (\<lambda>row ev. replicate d (ev ! 0) @ drop d row) B1 E)" for B1
    using h by (auto simp: zip_map_map drop_map dest: set_zip_rightD)
  show ?thesis
    unfolding assign_EV_i_def Let_def lift_mat_def 1 2 using False by simp
qed

lemma create_Vmat_lift:
  assumes "length e = m" "\<forall>i < m. length (e ! i) = n" "\<forall>i < m. \<forall>j < n. length (e ! i ! j) = n"
    and "length E = m" "\<forall>i < m. length (E ! i) = n"
  shows "f_create_Vmat (lift_mat E) (lift_tensor e) (Fin b) P m n W
           = lift_tensor (create_Vmat E e b P' m n W')"
  using assms by (simp add: f_create_Vmat_def create_Vmat_def lift_mat_def lift_tensor_def)

lemma V_i_lift:
  "map2 (map2 (\<lambda>e ev. f_add e (f_mul (Fin b) ev))) (lift_mat A) (lift_mat B)
     = lift_mat (map2 (map2 (\<lambda>e ev. e + b * ev)) A B)"
proof -
  have "map2 (\<lambda>e ev. f_add e (f_mul (Fin b) ev)) (map Fin x) (map Fin y)
          = map Fin (map2 (\<lambda>e ev. e + b * ev) x y)" for x y
    by (induction x y rule: list_induct2') simp_all
  then show ?thesis
    by (induction A B rule: list_induct2') (simp_all add: lift_mat_def)
qed

lemma V_lift:
  "map2 (map2 np_maximum) (lift_mat A) (lift_mat B) = lift_mat (map2 (map2 max) A B)"
proof -
  have "map2 np_maximum (map Fin x) (map Fin y) = map Fin (map2 max x y)" for x y
    by (induction x y rule: list_induct2') (simp_all add: np_maximum_Fin)
  then show ?thesis
    by (induction A B rule: list_induct2') (simp_all add: lift_mat_def)
qed

lemma dist_lift:
  "concat (map2 (map2 (\<lambda>x y. f_abs (f_sub x y))) (lift_mat A) (lift_mat B))
     = map Fin (concat (map2 (map2 (\<lambda>x y. \<bar>x - y\<bar>)) A B))"
proof -
  have "map2 (\<lambda>x y. f_abs (f_sub x y)) (map Fin x) (map Fin y)
          = map Fin (map2 (\<lambda>x y. \<bar>x - y\<bar>) x y)" for x y
    by (induction x y rule: list_induct2') (simp_all add: f_sub_def)
  then show ?thesis
    by (induction A B rule: list_induct2') (simp_all add: lift_mat_def)
qed

lemma amax_lift:
  assumes "\<forall>M \<in> set T. \<forall>row \<in> set M. row \<noteq> []"
  shows "map (map f_amax) (lift_tensor T) = lift_mat (map (map amax) T)"
  using assms by (simp add: lift_tensor_def lift_mat_def f_amax_Fin)

lemma argmax_lift:
  assumes "\<forall>M \<in> set T. \<forall>row \<in> set M. row \<noteq> []"
  shows "map (map (\<lambda>row. int (f_argmax row))) (lift_tensor T)
           = map (map (\<lambda>row. int (argmax row))) T"
  using assms by (simp add: lift_tensor_def f_argmax_Fin)

lemma np_dot_rows: "\<forall>ev \<in> set (np_dot A B n). length ev = n"
  by (auto simp: np_dot_def)

lemma concat_map2_nonempty:
  assumes "shaped m n A" "shaped m n B" "0 < m" "0 < n"
  shows "concat (map2 (map2 g) A B) \<noteq> []"
proof -
  from assms obtain x A' y B' where A: "A = x # A'" and B: "B = y # B'"
    by (cases A; cases B) (auto simp: shaped_def)
  with assms have "x \<noteq> []" "y \<noteq> []"
    by (auto simp: shaped_def)
  then have "map2 g x y \<noteq> []"
    by (cases x; cases y) simp_all
  then show ?thesis by (simp add: A B)
qed

lemma f_pass_lift:
  assumes wf: "wf_arrays a"
    and sh: "shaped (sizez a) (sizek a) (V s)" "shaped (sizez a) (sizek a) (EV_i s)"
  shows "f_pass p (lift_arrays a) (lift_state s) =
           (case vfi_pass p a s of Inl e \<Rightarrow> Inl e | Inr s' \<Rightarrow> Inr (lift_state s'))"
proof -
  let ?m = "sizez a" and ?n = "sizek a"
  let ?EV = "np_dot (Pi a) (V s) ?n"
  from sh(1) have "\<forall>b \<in> set (V s). length b = ?n"
    by (simp add: shaped_def list_all_iff)
  then have dot: "f_dot (lift_mat (Pi a)) (lift_mat (V s)) ?n = lift_mat ?EV"
    by (rule f_dot_lift)
  note asg = assign_EV_i_lift [OF np_dot_rows, of "dens p" ?n "Pi a" "V s" "EV_i s"]
  show ?thesis
  proof (cases "assign_EV_i (dens p) ?n ?EV (EV_i s)")
    case (Inl e)
    with asg dot show ?thesis
      by (simp add: f_pass_def vfi_pass_def Let_def lift_arrays_def lift_state_def)
  next
    case (Inr B)
    then have n: "0 < ?n"
      by (auto simp: assign_EV_i_def split: if_splits)
    let ?W = "case bound s of None \<Rightarrow> Vmat_empty a | Some l \<Rightarrow> Vmat l"
    let ?Vmat = "create_Vmat ?EV (e_a a) (betafirm p) (Pi a) ?m ?n ?W"
    from wf have e: "length (e_a a) = ?m" "\<forall>i < ?m. length (e_a a ! i) = ?n"
        "\<forall>i < ?m. \<forall>j < ?n. length (e_a a ! i ! j) = ?n"
      and P: "length (Pi a) = ?m"
      by (auto simp: wf_arrays_def shaped_iff list_all_length)
    have E: "length ?EV = ?m" "\<forall>i < ?m. length (?EV ! i) = ?n"
      using P by (simp_all add: np_dot_length np_dot_row_length)
    have cv: "f_create_Vmat (lift_mat ?EV) (lift_tensor (e_a a)) (Fin (betafirm p)) P' ?m ?n W'
                = lift_tensor ?Vmat" for P' W'
      using e E by (rule create_Vmat_lift)
    have rows: "\<forall>M \<in> set ?Vmat. \<forall>row \<in> set M. row \<noteq> []"
      using n by (auto simp: create_Vmat_def)
    show ?thesis
    proof (cases "?m = 0")
      case True
      with asg dot Inr show ?thesis
        by (simp add: f_pass_def vfi_pass_def Let_def lift_arrays_def lift_state_def)
    next
      case False
      let ?V_i = "map2 (map2 (\<lambda>e ev. e + betafirm p * ev)) (e_i a) B"
      let ?V_a = "map (map amax) ?Vmat"
      let ?V' = "map2 (map2 max) ?V_a ?V_i"
      let ?D = "concat (map2 (map2 (\<lambda>x y. \<bar>x - y\<bar>)) ?V' (V s))"
      have r: "vfi_pass p a s =
          Inr \<lparr>V = ?V', EV_i = B, VFdist = amax ?D, VFiter = VFiter s + 1,
               bound = Some \<lparr>EV = ?EV, Vmat = ?Vmat, V_i = ?V_i, V_a = ?V_a,
                              PF_continuous = map (map (\<lambda>row. int (argmax row))) ?Vmat\<rparr>\<rparr>"
        using False Inr by (simp add: vfi_pass_def Let_def)
      have "shaped ?m ?n ?V'"
        using vfi_pass_shapes(1) [OF wf sh r] by simp
      then have "?D \<noteq> []"
        using sh(1) False n by (intro concat_map2_nonempty [of ?m ?n]) simp_all
      then have d: "f_amax (map Fin ?D) = Fin (amax ?D)"
        by (rule f_amax_Fin)
      have l: "f_pass p (lift_arrays a) (lift_state s) =
          Inr \<lparr>V_f = lift_mat ?V', EV_i_f = lift_mat B, VFdist_f = Fin (amax ?D),
               VFiter_f = VFiter s + 1,
               bound_f = Some \<lparr>EV_f = lift_mat ?EV, Vmat_f = lift_tensor ?Vmat,
                                V_i_f = lift_mat ?V_i, V_a_f = lift_mat ?V_a,
                                PF_continuous_f = map (map (\<lambda>row. int (argmax row))) ?Vmat\<rparr>\<rparr>"
        using False asg Inr
        by (simp add: f_pass_def Let_def lift_arrays_def lift_state_def dot cv V_i_lift
              amax_lift [OF rows] argmax_lift [OF rows] V_lift dist_lift d)
      show ?thesis
        unfolding l r by (simp add: lift_state_def lift_vars_def)
    qed
  qed
qed

lemma f_cond_lift: "f_cond p (lift_state s) = vfi_cond p s"
  by (simp add: f_cond_def vfi_cond_def lift_state_def)

lemma f_while_lift:
  assumes "wf_arrays a" "shaped (sizez a) (sizek a) (V s)" "shaped (sizez a) (sizek a) (EV_i s)"
  shows "f_while p (lift_arrays a) (lift_state s) =
           (case vfi_while p a s of Inl e \<Rightarrow> Inl e | Inr t \<Rightarrow> Inr (lift_state t))"
  using assms
proof (induction p a s rule: vfi_while.induct)
  case (1 p a s)
  show ?case
  proof (cases "vfi_cond p s")
    case False
    then show ?thesis
      by (subst f_while.simps, subst vfi_while.simps) (simp add: f_cond_lift)
  next
    case True
    note pass = f_pass_lift [OF "1.prems", of p]
    show ?thesis
    proof (cases "vfi_pass p a s")
      case (Inl e)
      with True pass show ?thesis
        by (subst f_while.simps, subst vfi_while.simps) (simp add: f_cond_lift)
    next
      case (Inr s')
      from vfi_pass_shapes [OF "1.prems" Inr]
      have "f_while p (lift_arrays a) (lift_state s') =
              (case vfi_while p a s' of Inl e \<Rightarrow> Inl e | Inr t \<Rightarrow> Inr (lift_state t))"
        using "1.IH" [OF True Inr "1.prems"(1)] by simp
      with True pass Inr show ?thesis
        by (subst f_while.simps, subst vfi_while.simps) (simp add: f_cond_lift)
    qed
  qed
qed

lemma f_init_lift: "f_init (lift_arrays a) = lift_state (vfi_init a)"
  by (simp add: f_init_def vfi_init_def lift_arrays_def lift_state_def lift_mat_def)

lemma f_report_lift: "f_report p (lift_state s) = vfi_report p s"
  by (simp add: f_report_def vfi_report_def lift_state_def)

text \<open>On finite arrays the loop on values with infinities and NaN is the loop on the reals.\<close>

lemma f_while_finite:
  assumes "wf_arrays a"
  shows "f_while p (lift_arrays a) (f_init (lift_arrays a)) =
           (case vfi_while p a (vfi_init a) of Inl e \<Rightarrow> Inl e | Inr t \<Rightarrow> Inr (lift_state t))"
proof -
  from assms have "shaped (sizez a) (sizek a) (V (vfi_init a))"
    "shaped (sizez a) (sizek a) (EV_i (vfi_init a))"
    by (simp_all add: vfi_init_def wf_arrays_def shaped_iff)
  from f_while_lift [OF assms this] show ?thesis
    by (simp add: f_init_lift)
qed

subsection \<open>NaN and the infinities\<close>

text \<open>NaN passes through every operation of a pass.\<close>

lemma f_add_NaN [simp]: "f_add x NaN = NaN"
  by (cases x) simp_all

lemma f_less_NaN [simp]: "f_less x NaN = False"
  by (cases x) simp_all

lemma np_maximum_NaN [simp]: "np_maximum NaN y = NaN" "np_maximum x NaN = NaN"
  by (simp_all add: np_maximum_def)

lemma fold_np_maximum_NaN: "a = NaN \<or> NaN \<in> set xs \<Longrightarrow> fold np_maximum xs a = NaN"
proof (induction xs arbitrary: a)
  case Nil
  then show ?case by simp
next
  case (Cons x xs)
  from Cons.prems have "np_maximum x a = NaN \<or> NaN \<in> set xs"
    by auto
  then show ?case by (simp add: Cons.IH)
qed

lemma f_amax_NaN: "NaN \<in> set xs \<Longrightarrow> f_amax xs = NaN"
  by (cases xs) (auto simp: f_amax_def intro: fold_np_maximum_NaN)

lemma f_dot_shaped: "length A = m \<Longrightarrow> shaped m n (f_dot A B n)"
  by (simp add: shaped_iff f_dot_def)

lemma f_create_Vmat_nth:
  "z < m \<Longrightarrow> k < n \<Longrightarrow> k' < n \<Longrightarrow>
   f_create_Vmat E e b P m n W ! z ! k ! k' = f_add (e ! z ! k ! k') (f_mul b (E ! z ! k'))"
  by (simp add: f_create_Vmat_def)

lemma f_create_Vmat_shape:
  "length (f_create_Vmat E e b P m n W) = m"
  "z < m \<Longrightarrow> length (f_create_Vmat E e b P m n W ! z) = n"
  "z < m \<Longrightarrow> k < n \<Longrightarrow> length (f_create_Vmat E e b P m n W ! z ! k) = n"
  by (simp_all add: f_create_Vmat_def)

lemma f_pass_returns:
  "(\<exists>s'. f_pass p a s = Inr s') \<longleftrightarrow> 0 < sizek_f a \<and> dens p \<le> sizek_f a \<and> 0 < sizez_f a"
  by (auto simp: f_pass_def Let_def assign_EV_i_def)

lemma f_pass_Inr:
  assumes "f_pass p a s = Inr s'"
  obtains B and l :: floop_vars where
    "assign_EV_i (dens p) (sizek_f a) (f_dot (Pi_f a) (V_f s) (sizek_f a)) (EV_i_f s) = Inr B"
    "bound_f s' = Some l"
    "Vmat_f l = f_create_Vmat (f_dot (Pi_f a) (V_f s) (sizek_f a)) (e_a_f a) (Fin (betafirm p))
                  (Pi_f a) (sizez_f a) (sizek_f a)
                  (case bound_f s of None \<Rightarrow> Vmat_empty_f a | Some l' \<Rightarrow> Vmat_f l')"
    "V_i_f l = map2 (map2 (\<lambda>e ev. f_add e (f_mul (Fin (betafirm p)) ev))) (e_i_f a) B"
    "V_a_f l = map (map f_amax) (Vmat_f l)"
    "V_f s' = map2 (map2 np_maximum) (V_a_f l) (V_i_f l)"
    "VFdist_f s' = f_amax (concat (map2 (map2 (\<lambda>x y. f_abs (f_sub x y))) (V_f s') (V_f s)))"
    "VFiter_f s' = VFiter_f s + 1"
proof -
  from assms obtain B where
    B: "assign_EV_i (dens p) (sizek_f a) (f_dot (Pi_f a) (V_f s) (sizek_f a)) (EV_i_f s) = Inr B"
    by (auto simp: f_pass_def Let_def split: sum.splits)
  from assms B have z: "sizez_f a \<noteq> 0"
    by (auto simp: f_pass_def Let_def split: if_splits)
  from assms B z obtain l :: floop_vars where l: "bound_f s' = Some l"
    by (auto simp: f_pass_def Let_def)
  show thesis
    using assms B z l by (intro that [OF B l]) (auto simp: f_pass_def Let_def)
qed

lemma f_pass_NaN:
  assumes wf: "wf_farrays a" and sh: "shaped (sizez_f a) (sizek_f a) (V_f s)"
      "shaped (sizez_f a) (sizek_f a) (EV_i_f s)"
    and pass: "f_pass p a s = Inr s'"
    and idx: "z < sizez_f a" "k < sizek_f a" "k' < sizek_f a"
    and nan: "e_a_f a ! z ! k ! k' = NaN \<or> e_i_f a ! z ! k = NaN"
  shows "V_f s' ! z ! k = NaN" "VFdist_f s' = NaN"
proof -
  from pass obtain B and l :: floop_vars where
    B: "assign_EV_i (dens p) (sizek_f a) (f_dot (Pi_f a) (V_f s) (sizek_f a)) (EV_i_f s) = Inr B"
    and l: "Vmat_f l = f_create_Vmat (f_dot (Pi_f a) (V_f s) (sizek_f a)) (e_a_f a)
                  (Fin (betafirm p)) (Pi_f a) (sizez_f a) (sizek_f a)
                  (case bound_f s of None \<Rightarrow> Vmat_empty_f a | Some l' \<Rightarrow> Vmat_f l')"
      "V_i_f l = map2 (map2 (\<lambda>e ev. f_add e (f_mul (Fin (betafirm p)) ev))) (e_i_f a) B"
      "V_a_f l = map (map f_amax) (Vmat_f l)"
    and s': "V_f s' = map2 (map2 np_maximum) (V_a_f l) (V_i_f l)"
      "VFdist_f s' = f_amax (concat (map2 (map2 (\<lambda>x y. f_abs (f_sub x y))) (V_f s') (V_f s)))"
    by (rule f_pass_Inr)
  from wf have P: "length (Pi_f a) = sizez_f a" and E: "shaped (sizez_f a) (sizek_f a) (e_i_f a)"
    by (simp_all add: wf_farrays_def shaped_iff)
  from assign_EV_i_shaped [OF B f_dot_shaped [OF P] sh(2)]
  have Bs: "shaped (sizez_f a) (sizek_f a) B" .
  have Va: "V_a_f l ! z ! k = f_amax (Vmat_f l ! z ! k)"
    using idx by (simp add: l(3) l(1) f_create_Vmat_shape)
  have Vi: "V_i_f l ! z ! k = f_add (e_i_f a ! z ! k) (f_mul (Fin (betafirm p)) (B ! z ! k))"
    using E Bs idx by (simp add: l(2) shaped_iff)
  have V': "V_f s' ! z ! k = np_maximum (V_a_f l ! z ! k) (V_i_f l ! z ! k)"
    using E Bs idx by (simp add: s'(1) l shaped_iff f_create_Vmat_shape)
  from nan show v: "V_f s' ! z ! k = NaN"
  proof
    assume "e_a_f a ! z ! k ! k' = NaN"
    then have "Vmat_f l ! z ! k ! k' = NaN"
      using idx by (simp add: l(1) f_create_Vmat_nth)
    moreover have "k' < length (Vmat_f l ! z ! k)"
      using idx by (simp add: l(1) f_create_Vmat_shape)
    ultimately have "NaN \<in> set (Vmat_f l ! z ! k)"
      by (metis nth_mem)
    then show ?thesis by (simp add: V' Va f_amax_NaN)
  next
    assume "e_i_f a ! z ! k = NaN"
    then show ?thesis by (simp add: V' Vi)
  qed
  have len: "length (V_f s') = sizez_f a" "length (V_f s' ! z) = sizek_f a"
    using E Bs idx by (simp_all add: s'(1) l shaped_iff f_create_Vmat_shape)
  let ?D = "map2 (map2 (\<lambda>x y. f_abs (f_sub x y))) (V_f s') (V_f s)"
  have "?D ! z ! k = f_abs (f_sub (V_f s' ! z ! k) (V_f s ! z ! k))"
    using len sh(1) idx by (simp add: shaped_iff)
  then have "?D ! z ! k = NaN" by (simp add: v f_sub_def)
  moreover have "z < length ?D" "k < length (?D ! z)"
    using len sh(1) idx by (simp_all add: shaped_iff)
  ultimately have "NaN \<in> set (concat ?D)"
    by (metis nth_mem set_concat UN_I)
  then show "VFdist_f s' = NaN" by (simp add: s'(2) f_amax_NaN)
qed

text \<open>
  C4 (amended): the script has no test for non-finite flows; \<open>e_a\<close> and \<open>e_i\<close> go
  into the loop as they are, and a pass raises for the array sizes only. If an entry
  \<open>e_a[z, k, k']\<close> or \<open>e_i[z, k]\<close> is NaN and the loop is entered (\<open>VFtol < 7\<close>,
  \<open>VFmaxiter > 1\<close>), then the first pass returns without an exception, with
  \<open>V[z, k]\<close> and \<open>VFdist\<close> equal to NaN. The loop condition \<open>VFdist > VFtol\<close> is false
  on NaN, so the loop ends after that pass with the counter at 2, and the report, which reads
  the counter only, says that the value function converged after 2 iterations (for
  \<open>VFmaxiter > 2\<close>).
\<close>

theorem nan_payoff_reaches_value_function:
  assumes wf: "wf_farrays a"
    and sizes: "dens p \<le> sizek_f a"
    and idx: "z < sizez_f a" "k < sizek_f a" "k' < sizek_f a"
    and nan: "e_a_f a ! z ! k ! k' = NaN \<or> e_i_f a ! z ! k = NaN"
    and enter: "VFtol p < 7" "1 < VFmaxiter p"
  shows "\<exists>s. f_while p a (f_init a) = Inr s \<and> V_f s ! z ! k = NaN \<and> VFdist_f s = NaN \<and>
             VFiter_f s = 2 \<and>
             f_report p s = (if 2 < VFmaxiter p then Converged 2 else Did_not_converge)"
proof -
  from idx sizes have "0 < sizek_f a \<and> dens p \<le> sizek_f a \<and> 0 < sizez_f a"
    by simp
  then obtain s where pass: "f_pass p a (f_init a) = Inr s"
    using f_pass_returns [of p a "f_init a"] by blast
  from wf have sh: "shaped (sizez_f a) (sizek_f a) (V_f (f_init a))"
    "shaped (sizez_f a) (sizek_f a) (EV_i_f (f_init a))"
    by (simp_all add: f_init_def wf_farrays_def shaped_iff)
  from f_pass_NaN [OF wf sh pass idx nan]
  have v: "V_f s ! z ! k = NaN" and d: "VFdist_f s = NaN" .
  from pass have i: "VFiter_f s = 2"
    by (elim f_pass_Inr) (simp add: f_init_def)
  from enter have c0: "f_cond p (f_init a)"
    by (simp add: f_cond_def f_init_def)
  from d have c1: "\<not> f_cond p s"
    by (simp add: f_cond_def)
  have "f_while p a (f_init a) = f_while p a s"
    using c0 pass by (subst f_while.simps) simp
  also have "\<dots> = Inr s"
    using c1 by (subst f_while.simps) simp
  finally have "f_while p a (f_init a) = Inr s" .
  with v d i show ?thesis
    by (simp add: f_report_def)
qed

lemma nan_profit_wf: "wf_farrays nan_profit_arrays"
  by (simp add: wf_farrays_def nan_profit_arrays_def shaped_def)

text \<open>
  The amended statement on \<open>nan_profit_arrays\<close>, where the operating profit at the capital
  index 1 is NaN.
\<close>

theorem nan_payoff_reaches_value_function_witness:
  "wf_farrays nan_profit_arrays \<and> dens costly_params \<le> sizek_f nan_profit_arrays \<and>
   0 < sizez_f nan_profit_arrays \<and> 1 < sizek_f nan_profit_arrays \<and>
   e_i_f nan_profit_arrays ! 0 ! 1 = NaN \<and>
   VFtol costly_params < 7 \<and> 1 < VFmaxiter costly_params \<and>
   (\<exists>s. f_while costly_params nan_profit_arrays (f_init nan_profit_arrays) = Inr s \<and>
        V_f s ! 0 ! 1 = NaN \<and> VFdist_f s = NaN \<and> VFiter_f s = 2 \<and>
        f_report costly_params s = Converged 2)"
proof -
  have h: "dens costly_params \<le> sizek_f nan_profit_arrays" "0 < sizez_f nan_profit_arrays"
    "1 < sizek_f nan_profit_arrays" "e_i_f nan_profit_arrays ! 0 ! 1 = NaN"
    "VFtol costly_params < 7" "1 < VFmaxiter costly_params" "2 < VFmaxiter costly_params"
    by (simp_all add: nan_profit_arrays_def costly_params_def)
  from nan_payoff_reaches_value_function [OF nan_profit_wf h(1) h(2) h(3) h(3) disjI2 [OF h(4)]
    h(5) h(6)] h nan_profit_wf
  show ?thesis by simp
qed

text \<open>
  The claim C4 as stated fails on \<open>nan_cost_arrays\<close>, whose active flows are NaN. No error
  is raised: the loop consumes the tensors, returns after one pass with a value function that
  is NaN in every state, and the run is reported as converged after 2 iterations.
\<close>

theorem non_finite_payoff_not_detected:
  "e_a_f nan_cost_arrays ! 0 ! 0 ! 0 = NaN \<and>
   f_while costly_params nan_cost_arrays (f_init nan_cost_arrays) =
     Inr \<lparr>V_f = [[NaN, NaN]], EV_i_f = [[Fin 0, Fin 0]], VFdist_f = NaN, VFiter_f = 2,
          bound_f = Some \<lparr>EV_f = [[Fin 0, Fin 0]], Vmat_f = [[[NaN, NaN], [NaN, NaN]]],
                          V_i_f = [[Fin (1 / 8), Fin (1 / 2)]], V_a_f = [[NaN, NaN]],
                          PF_continuous_f = [[0, 0]]\<rparr>\<rparr> \<and>
   f_report costly_params
     \<lparr>V_f = [[NaN, NaN]], EV_i_f = [[Fin 0, Fin 0]], VFdist_f = NaN, VFiter_f = 2,
      bound_f = Some \<lparr>EV_f = [[Fin 0, Fin 0]], Vmat_f = [[[NaN, NaN], [NaN, NaN]]],
                      V_i_f = [[Fin (1 / 8), Fin (1 / 2)]], V_a_f = [[NaN, NaN]],
                      PF_continuous_f = [[0, 0]]\<rparr>\<rparr> = Converged 2"
  by code_simp

text \<open>
  Infinite flows are not tested either. Active flows of \<open>+inf\<close> make the value function
  \<open>+inf\<close> in the first pass; in the second pass \<open>V - TV\<close> is \<open>inf - inf\<close>, the
  distance is NaN, and the run ends as converged after 3 iterations. Active flows of
  \<open>-inf\<close> are absorbed by the maxima: the run is that of \<open>costly_arrays\<close>, with a finite
  value function.
\<close>

lemma inf_payoff_run:
  "f_while costly_params inf_cost_arrays (f_init inf_cost_arrays) =
     Inr \<lparr>V_f = [[PInf, PInf]], EV_i_f = [[PInf, PInf]], VFdist_f = NaN, VFiter_f = 3,
          bound_f = Some \<lparr>EV_f = [[PInf, PInf]], Vmat_f = [[[PInf, PInf], [PInf, PInf]]],
                          V_i_f = [[PInf, PInf]], V_a_f = [[PInf, PInf]],
                          PF_continuous_f = [[0, 0]]\<rparr>\<rparr>"
  by code_simp

lemma neg_inf_payoff_run:
  "f_while costly_params neg_inf_cost_arrays (f_init neg_inf_cost_arrays) =
     Inr \<lparr>V_f = [[Fin (3 / 16), Fin (9 / 16)]], EV_i_f = [[Fin (1 / 8), Fin (1 / 8)]],
          VFdist_f = Fin (1 / 16), VFiter_f = 3,
          bound_f = Some \<lparr>EV_f = [[Fin (1 / 8), Fin (1 / 2)]],
                          Vmat_f = [[[NInf, NInf], [NInf, NInf]]],
                          V_i_f = [[Fin (3 / 16), Fin (9 / 16)]], V_a_f = [[NInf, NInf]],
                          PF_continuous_f = [[0, 0]]\<rparr>\<rparr>"
  by code_simp

end
